theory Spec2Isabelle
  imports Complex_Main "HOL-Library.Sublist" "HOL-Library.Log_Nat"
begin

section \<open>JavaScript strings\<close>

text \<open>
  Strings are lists of code units. The model keeps to code units below 256, which is all
  the literals of the program need. \<open>includes\<close> (here \<open>includes_str\<close>), \<open>startsWith\<close>, \<open>trim\<close>, \<open>indexOf\<close>,
  \<open>substring\<close> and \<open>split(sep)[0]\<close> are the built-in methods of \<open>String.prototype\<close> that
  the program calls.
\<close>

fun includes_str :: "string \<Rightarrow> string \<Rightarrow> bool" where
  "includes_str [] sub = (sub = [])"
| "includes_str (c # cs) sub = (prefix sub (c # cs) \<or> includes_str cs sub)"

definition startsWith :: "string \<Rightarrow> string \<Rightarrow> bool" where
  "startsWith s p = prefix p s"

text \<open>White space and line terminators that \<open>trim\<close> strips, among the code units below 256:
  TAB, LF, VT, FF, CR, SPACE and NBSP.\<close>

definition is_js_space :: "char \<Rightarrow> bool" where
  "is_js_space c = (c \<in> set [CHR 0x09, CHR 0x0A, CHR 0x0B, CHR 0x0C, CHR 0x0D, CHR 0x20, CHR 0xA0])"

definition trim :: "string \<Rightarrow> string" where
  "trim s = rev (dropWhile is_js_space (rev (dropWhile is_js_space s)))"

text \<open>\<open>indexOf\<close> of a single code unit: \<open>None\<close> stands for the result \<open>-1\<close>.\<close>

fun indexOf :: "string \<Rightarrow> char \<Rightarrow> nat option" where
  "indexOf [] c = None"
| "indexOf (x # xs) c = (if x = c then Some 0 else map_option Suc (indexOf xs c))"

text \<open>\<open>substring(a, b)\<close> clamps both indices to the length and swaps them when \<open>a > b\<close>;
  \<open>substring(a)\<close> runs to the end.\<close>

definition substring :: "string \<Rightarrow> nat \<Rightarrow> nat \<Rightarrow> string" where
  "substring s a b =
     (let a' = min a (length s); b' = min b (length s)
      in take (max a' b' - min a' b') (drop (min a' b') s))"

definition substring_from :: "string \<Rightarrow> nat \<Rightarrow> string" where
  "substring_from s a = drop a s"

text \<open>\<open>s.split(sep)[0]\<close>: everything before the first separator, or all of \<open>s\<close>.\<close>

definition split_head :: "string \<Rightarrow> char \<Rightarrow> string" where
  "split_head s sep = takeWhile (\<lambda>c. c \<noteq> sep) s"

text \<open>Truthiness of an optional string: \<open>undefined\<close> and the empty string are falsy.\<close>

fun truthy :: "string option \<Rightarrow> bool" where
  "truthy None = False"
| "truthy (Some s) = (s \<noteq> [])"

text \<open>A non-negative integer in a template literal is written in decimal.\<close>

function decimal :: "nat \<Rightarrow> string" where
  "decimal n = (if n < 10 then [char_of (48 + n)] else decimal (n div 10) @ [char_of (48 + n mod 10)])"
  by pat_completeness auto
termination
  by (relation "measure id") auto

section \<open>Thrown values and the retry wrapper (services/gemini.ts)\<close>

text \<open>
  A rejected promise carries an object with an optional string \<open>message\<close> and an optional
  numeric \<open>status\<close> (written \<open>status_code\<close>): the shape of \<open>Error\<close> and of the errors of
  the API client.
  \<open>new Error(m)\<close> has the message \<open>m\<close> and no status.
\<close>

datatype thrown = Thrown (message: "string option") (status_code: "int option")

definition Error :: "string \<Rightarrow> thrown" where
  "Error m = Thrown (Some m) None"

text \<open>\<open>error.message?.includes(code)\<close>: falsy when there is no message.\<close>

definition message_includes :: "thrown \<Rightarrow> string \<Rightarrow> bool" where
  "message_includes e code = (case message e of None \<Rightarrow> False | Some m \<Rightarrow> includes_str m code)"

definition MAX_RETRIES :: int where
  "MAX_RETRIES = 3"

definition INITIAL_RETRY_DELAY :: int where
  "INITIAL_RETRY_DELAY = 1000"

definition isClientError :: "thrown \<Rightarrow> bool" where
  "isClientError e = (message_includes e ''400'' \<or> status_code e = Some 400)"

definition isQuotaError :: "thrown \<Rightarrow> bool" where
  "isQuotaError e = (message_includes e ''429'' \<or> status_code e = Some 429)"

text \<open>
  What the caller can observe of a run: each invocation of \<open>fn\<close>, numbered from 0, and each
  \<open>delay(ms)\<close> that was awaited, in the order in which they happen.
\<close>

datatype event = Invoke nat | Wait int

text \<open>
  \<open>fn\<close> is an effectful operation, so it is given as the outcome of each of its
  invocations: \<open>fn k\<close> is what the \<open>k\<close>-th invocation settles to, \<open>Inl\<close> a rejection.
  The last argument counts the invocations made so far.
\<close>

function callWithRetry ::
  "(nat \<Rightarrow> thrown + 'a) \<Rightarrow> int \<Rightarrow> int \<Rightarrow> nat \<Rightarrow> (thrown + 'a) \<times> event list" where
  "callWithRetry fn retries backoff k =
     (case fn k of
        Inr v \<Rightarrow> (Inr v, [Invoke k])
      | Inl error \<Rightarrow>
          (if (isClientError error \<and> \<not> isQuotaError error) \<or> retries \<le> 0
           then (Inl error, [Invoke k])
           else (case callWithRetry fn (retries - 1) (backoff * 2) (Suc k) of
                   (r, evs) \<Rightarrow> (r, Invoke k # Wait backoff # evs))))"
  by pat_completeness auto
termination
  by (relation "measure (\<lambda>(fn, retries, backoff, k). nat retries)") auto

definition invocations :: "event list \<Rightarrow> nat" where
  "invocations evs = length (filter (\<lambda>ev. case ev of Invoke _ \<Rightarrow> True | Wait _ \<Rightarrow> False) evs)"

text \<open>The condition under which the catch block of \<open>callWithRetry\<close> goes on to retry
  while retries are left.\<close>

definition retryable :: "thrown \<Rightarrow> bool" where
  "retryable e = (\<not> (isClientError e \<and> \<not> isQuotaError e))"

text \<open>
  The comment in the catch block speaks of the \<open>4xx Client Errors\<close>. \<open>client_error_4xx\<close> is
  that class, with an error marked by a code the way the guards mark 400 and 429: the
  message includes the code or the status is the code.
\<close>

definition marked :: "thrown \<Rightarrow> nat \<Rightarrow> bool" where
  "marked e c = (message_includes e (decimal c) \<or> status_code e = Some (int c))"

definition client_error_4xx :: "thrown \<Rightarrow> bool" where
  "client_error_4xx e = list_ex (marked e) [400..<500]"

section \<open>File preprocessing (services/gemini.ts)\<close>

text \<open>
  A \<open>File\<close> as the program reads it: its name, MIME type, size in bytes and modification
  time. The fields \<open>type\<close> and \<open>size\<close> are written \<open>ftype\<close> and \<open>fsize\<close>.
\<close>

record File =
  name :: string
  ftype :: string
  fsize :: nat
  lastModified :: nat

text \<open>The interface \<open>ProcessedPart\<close>; its fields \<open>type\<close> and \<open>text\<close> are written
  \<open>ptype\<close> and \<open>ptext\<close>. An optional field that is absent is \<open>None\<close>.\<close>

datatype part_type = inline_data | text_content

record ProcessedPart =
  ptype :: part_type
  mimeType :: "string option"
  data :: "string option"
  ptext :: "string option"

text \<open>
  The numbers of the program are IEEE doubles. The dimensions of an image are integers,
  on which the comparisons of the program are exact; the one place where the program
  computes with fractions is the scaling in \<open>compressImage\<close>, and its results are handed
  to the canvas and read nowhere else. They are kept as the expressions that are
  evaluated, \<open>Times\<close> for \<open>*\<close> and \<open>Over\<close> for \<open>/\<close>.
\<close>

datatype number = Num nat | Times number number | Over number number

text \<open>
  What the browser and the network contribute. Reading a file, decoding an image and
  encoding a canvas are browser operations; their results are taken from the environment:
  \<^item> \<open>fileText f\<close>: the result of \<open>FileReader.readAsText\<close>, \<open>None\<close> when \<open>onerror\<close> fires;
  \<^item> \<open>fileDataURL f\<close>: the result of \<open>FileReader.readAsDataURL\<close>, \<open>None\<close> on \<open>onerror\<close>;
  \<^item> \<open>imageSize f\<close>: the \<open>width\<close> and \<open>height\<close> of the image when \<open>img.onload\<close> fires, \<open>None\<close>
    when \<open>img.onerror\<close> fires instead;
  \<^item> \<open>canvas2d\<close>: whether \<open>canvas.getContext('2d')\<close> is non-null;
  \<^item> \<open>canvasJpeg f (width, height)\<close>: what \<open>canvas.toDataURL('image/jpeg', JPEG_QUALITY)\<close>
    returns once the canvas has been given the size \<open>width\<close> by \<open>height\<close> and the image of \<open>f\<close>
    has been drawn on it at that size;
  \<^item> \<open>settleTime i\<close>: the moment at which the promise of the \<open>i\<close>-th file settles;
    \<open>Promise.all\<close> rejects with the rejection that comes first in time.
\<close>

record browser =
  fileText :: "File \<Rightarrow> string option"
  fileDataURL :: "File \<Rightarrow> string option"
  imageSize :: "File \<Rightarrow> (nat \<times> nat) option"
  canvas2d :: bool
  canvasJpeg :: "File \<Rightarrow> number \<times> number \<Rightarrow> string"
  settleTime :: "nat \<Rightarrow> nat"

definition MAX_IMAGE_DIMENSION :: nat where
  "MAX_IMAGE_DIMENSION = 1536"

text \<open>The scaling of \<open>compressImage\<close>: the values of \<open>width\<close> and \<open>height\<close> after the two
  guards, for an image of \<open>w\<close> by \<open>h\<close> pixels.\<close>

definition scaled_dimensions :: "nat \<Rightarrow> nat \<Rightarrow> number \<times> number" where
  "scaled_dimensions w h =
     (if w > h then
        (if w > MAX_IMAGE_DIMENSION
         then (Num MAX_IMAGE_DIMENSION, Times (Num h) (Over (Num MAX_IMAGE_DIMENSION) (Num w)))
         else (Num w, Num h))
      else
        (if h > MAX_IMAGE_DIMENSION
         then (Times (Num w) (Over (Num MAX_IMAGE_DIMENSION) (Num h)), Num MAX_IMAGE_DIMENSION)
         else (Num w, Num h)))"

text \<open>
  How the engine evaluates such an expression. Each operation yields the exact result
  rounded to double precision: the nearest number with a significand of 53 bits, a tie
  going to the even significand. \<open>binade x\<close> is the exponent \<open>e\<close> with
  \<open>2 ^ e \<le> x < 2 ^ (e + 1)\<close>, so that the doubles around \<open>x\<close> are the multiples of
  \<open>2 ^ (e - 52)\<close>. The exponent is not bounded here; the sides of an image are below
  \<open>2 ^ 32\<close>, and for them no operation of the scaling leaves the range of the normal
  doubles. A side itself is an integer below \<open>2 ^ 53\<close> and so a double.
\<close>

definition round_even :: "rat \<Rightarrow> int" where
  "round_even q =
     (let f = \<lfloor>q\<rfloor>; r = q - of_int f
      in if r < 1 / 2 then f else if 1 / 2 < r then f + 1 else if even f then f else f + 1)"

definition binade :: "rat \<Rightarrow> int" where
  "binade x =
     (if 1 \<le> x then int (floorlog 2 (nat \<lfloor>x\<rfloor>)) - 1
      else - int (floorlog 2 (nat (\<lceil>1 / x\<rceil> - 1))))"

definition round_double :: "rat \<Rightarrow> rat" where
  "round_double x =
     (if x = 0 then 0
      else sgn x * of_int (round_even (\<bar>x\<bar> / 2 powi (binade \<bar>x\<bar> - 52))) * 2 powi (binade \<bar>x\<bar> - 52))"

fun double :: "number \<Rightarrow> rat" where
  "double (Num n) = of_nat n"
| "double (Times a b) = round_double (double a * double b)"
| "double (Over a b) = round_double (double a / double b)"

definition compressImage :: "'b browser_scheme \<Rightarrow> File \<Rightarrow> thrown + string" where
  "compressImage env file =
     (case imageSize env file of
        None \<Rightarrow> Inl (Error ''Failed to load image for optimization.'')
      | Some (w, h) \<Rightarrow>
          if \<not> canvas2d env
          then Inl (Error ''Browser does not support canvas image processing.'')
          else Inr (canvasJpeg env file (scaled_dimensions w h)))"

text \<open>The readers reject with the event object of \<open>onerror\<close>, which has no message.\<close>

definition readFileAsBase64 :: "'b browser_scheme \<Rightarrow> File \<Rightarrow> thrown + string" where
  "readFileAsBase64 env file =
     (case fileDataURL env file of None \<Rightarrow> Inl (Thrown None None) | Some r \<Rightarrow> Inr r)"

definition readFileAsText :: "'b browser_scheme \<Rightarrow> File \<Rightarrow> thrown + string" where
  "readFileAsText env file =
     (case fileText env file of None \<Rightarrow> Inl (Thrown None None) | Some r \<Rightarrow> Inr r)"

text \<open>\<open>parseDataUrl\<close> returns the pair \<open>(mimeType, data)\<close>.\<close>

definition parseDataUrl :: "string \<Rightarrow> thrown + string \<times> string" where
  "parseDataUrl dataUrl =
     (case indexOf dataUrl (CHR '','') of
        None \<Rightarrow> Inl (Error ''Invalid Data URL format'')
      | Some commaIndex \<Rightarrow>
          Inr (split_head (substring dataUrl 5 commaIndex) (CHR '';''),
               substring_from dataUrl (commaIndex + 1)))"

definition inline_part :: "string \<times> string \<Rightarrow> ProcessedPart" where
  "inline_part md =
     \<lparr>ptype = inline_data, mimeType = Some (fst md), data = Some (snd md), ptext = None\<rparr>"

definition text_part :: "string \<Rightarrow> ProcessedPart" where
  "text_part t = \<lparr>ptype = text_content, mimeType = None, data = None, ptext = Some t\<rparr>"

definition attached_text :: "string \<Rightarrow> string \<Rightarrow> string" where
  "attached_text nm textContent =
     ''[Attached File: '' @ nm @ '']'' @ [CHR 0x0A] @ textContent @ [CHR 0x0A] @ ''---''"

definition could_not_process :: "string \<Rightarrow> thrown" where
  "could_not_process nm = Error (''Could not process '' @ nm @ ''. Please try a different file.'')"

text \<open>The body of the \<open>try\<close> block of the callback that \<open>processFilesForGemini\<close> maps over
  the files, and the callback with its \<open>catch\<close>.\<close>

definition processFile_try :: "'b browser_scheme \<Rightarrow> File \<Rightarrow> thrown + ProcessedPart" where
  "processFile_try env file =
     (if ftype file = ''text/plain'' then
        (case readFileAsText env file of
           Inl e \<Rightarrow> Inl e
         | Inr textContent \<Rightarrow> Inr (text_part (attached_text (name file) textContent)))
      else if startsWith (ftype file) ''image/'' then
        (case compressImage env file of
           Inl e \<Rightarrow> Inl e
         | Inr dataUrl \<Rightarrow>
             (case parseDataUrl dataUrl of Inl e \<Rightarrow> Inl e | Inr md \<Rightarrow> Inr (inline_part md)))
      else
        (case readFileAsBase64 env file of
           Inl e \<Rightarrow> Inl e
         | Inr dataUrl \<Rightarrow>
             (case parseDataUrl dataUrl of Inl e \<Rightarrow> Inl e | Inr md \<Rightarrow> Inr (inline_part md))))"

definition processFile :: "'b browser_scheme \<Rightarrow> File \<Rightarrow> thrown + ProcessedPart" where
  "processFile env file =
     (case processFile_try env file of
        Inl error \<Rightarrow> Inl (could_not_process (name file))
      | Inr part \<Rightarrow> Inr part)"

text \<open>
  \<open>Promise.all\<close>: fulfilled with the values in the order of the promises when all of them
  are fulfilled, rejected with the earliest rejection otherwise. \<open>earliest_rejection\<close>
  walks the outcomes from index \<open>i\<close> on and keeps the rejection with the least settle time.
\<close>

fun earliest_rejection :: "(nat \<Rightarrow> nat) \<Rightarrow> nat \<Rightarrow> (thrown + 'a) list \<Rightarrow> (nat \<times> thrown) option" where
  "earliest_rejection t i [] = None"
| "earliest_rejection t i (Inr v # rs) = earliest_rejection t (Suc i) rs"
| "earliest_rejection t i (Inl e # rs) =
     (case earliest_rejection t (Suc i) rs of
        None \<Rightarrow> Some (t i, e)
      | Some (t', e') \<Rightarrow> if t i \<le> t' then Some (t i, e) else Some (t', e'))"

fun fulfilled :: "(thrown + 'a) list \<Rightarrow> 'a list" where
  "fulfilled [] = []"
| "fulfilled (Inr v # rs) = v # fulfilled rs"
| "fulfilled (Inl e # rs) = fulfilled rs"

definition Promise_all :: "(nat \<Rightarrow> nat) \<Rightarrow> (thrown + 'a) list \<Rightarrow> thrown + 'a list" where
  "Promise_all t rs =
     (case earliest_rejection t 0 rs of
        Some (t', e) \<Rightarrow> Inl e
      | None \<Rightarrow> Inr (fulfilled rs))"

definition processFilesForGemini :: "'b browser_scheme \<Rightarrow> File list \<Rightarrow> thrown + ProcessedPart list" where
  "processFilesForGemini env files = Promise_all (settleTime env) (map (processFile env) files)"

section \<open>The response bundle (types.ts) and the analysis call (services/gemini.ts)\<close>

text \<open>The values \<open>JSON.parse\<close> can return. An object lists its properties; a property is
  looked up with \<open>map_of\<close>.\<close>

datatype json =
    JNull
  | JBool bool
  | JNumber rat
  | JString string
  | JArray "json list"
  | JObject "(string \<times> json) list"

fun isString :: "json option \<Rightarrow> bool" where
  "isString (Some (JString s)) = True"
| "isString v = False"

text \<open>The interface \<open>RuleLensItem\<close>: an object with the string properties \<open>term\<close> and
  \<open>definition\<close>.\<close>

fun isRuleLensItem :: "json \<Rightarrow> bool" where
  "isRuleLensItem (JObject props) =
     (isString (map_of props ''term'') \<and> isString (map_of props ''definition''))"
| "isRuleLensItem v = False"

fun isRuleLensList :: "json option \<Rightarrow> bool" where
  "isRuleLensList (Some (JArray items)) = list_all isRuleLensItem items"
| "isRuleLensList v = False"

fun isStringList :: "json option \<Rightarrow> bool" where
  "isStringList (Some (JArray items)) = list_all (\<lambda>v. isString (Some v)) items"
| "isStringList v = False"

text \<open>The interface \<open>AptusResponse\<close>, which is also what \<open>responseSchema\<close> requires: the four
  properties are present with the declared types.\<close>

fun isAptusResponse :: "json \<Rightarrow> bool" where
  "isAptusResponse (JObject props) =
     (isString (map_of props ''tldr'')
      \<and> isRuleLensList (map_of props ''ruleLens'')
      \<and> isStringList (map_of props ''actionableSteps'')
      \<and> isString (map_of props ''sourceCitation''))"
| "isAptusResponse v = False"

text \<open>A \<open>Part\<close> of the request, and the request itself. Of the request only the parts, the
  model name and the target language (the one variable piece of the system instruction)
  vary; the response schema, MIME type and temperature are constants.\<close>

datatype Part = InlineData string string | TextPart string

record GenerateContentRequest =
  model :: string
  parts :: "Part list"
  targetLanguage :: string

text \<open>Of the response the program reads \<open>candidates?.[0]?.finishReason\<close> and \<open>text\<close>.\<close>

record GenerateContentResponse =
  finishReason :: "string option"
  responseText :: "string option"

text \<open>
  The environment of the analysis adds to the browser:
  \<^item> \<open>apiKey\<close>: \<open>process.env.API_KEY\<close>, \<open>None\<close> when undefined;
  \<^item> \<open>generateContent req k\<close>: what the \<open>k\<close>-th call of \<open>ai.models.generateContent\<close> with the
    request \<open>req\<close> settles to;
  \<^item> \<open>JSON_parse\<close>: the built-in \<open>JSON.parse\<close>, \<open>Inl\<close> its \<open>SyntaxError\<close>.
\<close>

record world = browser +
  apiKey :: "string option"
  generateContent :: "GenerateContentRequest \<Rightarrow> nat \<Rightarrow> thrown + GenerateContentResponse"
  JSON_parse :: "string \<Rightarrow> thrown + json"

text \<open>The body of \<open>files.forEach\<close>: the parts one processed file contributes.\<close>

definition file_parts :: "ProcessedPart \<Rightarrow> Part list" where
  "file_parts file =
     (if ptype file = inline_data \<and> truthy (data file) \<and> truthy (mimeType file)
      then [InlineData (the (mimeType file)) (the (data file))]
      else if ptype file = text_content \<and> truthy (ptext file)
      then [TextPart (the (ptext file))]
      else [])"

definition request_parts :: "string \<Rightarrow> ProcessedPart list \<Rightarrow> Part list" where
  "request_parts text files =
     concat (map file_parts files)
     @ (if trim text \<noteq> [] then [TextPart (''User Text Input:'' @ [CHR 0x0A] @ text)] else [])"

text \<open>The statements of the \<open>try\<close> block that follow the call: the finish reason, the empty
  response, and \<open>JSON.parse\<close>.\<close>

definition read_response :: "world \<Rightarrow> GenerateContentResponse \<Rightarrow> thrown + json" where
  "read_response env response =
     (if truthy (finishReason response) \<and> finishReason response \<noteq> Some ''STOP'' then
        (if finishReason response = Some ''SAFETY'' then
           Inl (Error ''Analysis blocked. The document contains content flagged as unsafe or sensitive.'')
         else if finishReason response = Some ''RECITATION'' then
           Inl (Error ''Analysis blocked due to copyright content restrictions.'')
         else
           Inl (Error (''Analysis stopped unexpectedly (Reason: '' @ the (finishReason response)
                       @ ''). Please try a clearer document.'')))
      else if \<not> truthy (responseText response) then
        Inl (Error ''The AI returned an empty response. Please try again.'')
      else JSON_parse env (the (responseText response)))"

text \<open>The \<open>catch\<close> block of \<open>analyzeDocument\<close>: the error it throws for a caught error.\<close>

definition rethrow :: "thrown \<Rightarrow> thrown" where
  "rethrow error =
     (if message_includes error ''400'' then
        Error ''The document is too large or contains prohibited content.''
      else if message_includes error ''429'' then
        Error ''Service is currently busy. Please try again in a moment.''
      else if message_includes error ''500'' \<or> message_includes error ''503'' then
        Error ''Gemini service is temporarily unavailable. Please try again.''
      else error)"

text \<open>\<open>analyzeDocument\<close> returns its result together with the invocations of the model and
  the delays it went through.\<close>

definition analyzeDocument ::
  "world \<Rightarrow> string \<Rightarrow> ProcessedPart list \<Rightarrow> string \<Rightarrow> (thrown + json) \<times> event list" where
  "analyzeDocument env text files lang =
     (if \<not> truthy (apiKey env) then
        (Inl (Error ''System Error: API Key is missing. Please check configuration.''), [])
      else if request_parts text files = [] then
        (Inl (Error ''No input provided. Please upload a file or enter text.''), [])
      else
        (case callWithRetry
                (generateContent env
                   \<lparr>model = ''gemini-2.5-flash'', parts = request_parts text files,
                    targetLanguage = lang\<rparr>)
                MAX_RETRIES INITIAL_RETRY_DELAY 0 of
           (Inl error, evs) \<Rightarrow> (Inl (rethrow error), evs)
         | (Inr response, evs) \<Rightarrow>
             (case read_response env response of
                Inl error \<Rightarrow> (Inl (rethrow error), evs)
              | Inr v \<Rightarrow> (Inr v, evs))))"

section \<open>Application state and its handlers (types.ts, App.tsx)\<close>

record InputState =
  "text" :: string
  files :: "File list"
  language :: string

datatype AppStatus = IDLE | PROCESSING | SUCCESS | ERROR

text \<open>The state hooks of the component \<open>App\<close>.\<close>

record App =
  status :: AppStatus
  inputState :: InputState
  result :: "json option"
  errorMsg :: string
  showPrivacy :: bool
  isDarkMode :: bool

text \<open>
  \<open>handleSubmit\<close> runs in two stretches. Up to its first \<open>await\<close> it sets the three hooks
  (\<open>handleSubmit_begin\<close>). When the awaited work has settled, it stores the response or, in
  the \<open>catch\<close> block, the error (\<open>handleSubmit_settle\<close>). The awaited work reads the input
  state that the call was started with (\<open>handleSubmit_outcome\<close>).
\<close>

definition handleSubmit_begin :: "App \<Rightarrow> App" where
  "handleSubmit_begin st = st\<lparr>status := PROCESSING, errorMsg := [], result := None\<rparr>"

definition handleSubmit_outcome :: "world \<Rightarrow> App \<Rightarrow> thrown + json" where
  "handleSubmit_outcome env st =
     (case processFilesForGemini env (files (inputState st)) of
        Inl err \<Rightarrow> Inl err
      | Inr processedFiles \<Rightarrow>
          fst (analyzeDocument env (text (inputState st)) processedFiles (language (inputState st))))"

text \<open>\<open>err.message || "An unexpected error ..."\<close>: the default replaces a message that is
  missing or empty.\<close>

definition message_or_default :: "thrown \<Rightarrow> string" where
  "message_or_default err =
     (if truthy (message err) then the (message err)
      else ''An unexpected error occurred while analyzing the document.'')"

definition handleSubmit_settle :: "thrown + json \<Rightarrow> App \<Rightarrow> App" where
  "handleSubmit_settle outcome st =
     (case outcome of
        Inr response \<Rightarrow> st\<lparr>result := Some response, status := SUCCESS\<rparr>
      | Inl err \<Rightarrow> st\<lparr>status := ERROR, errorMsg := message_or_default err\<rparr>)"

definition handleSubmit :: "world \<Rightarrow> App \<Rightarrow> App" where
  "handleSubmit env st = handleSubmit_settle (handleSubmit_outcome env st) (handleSubmit_begin st)"

definition handleReset :: "App \<Rightarrow> App" where
  "handleReset st =
     st\<lparr>status := IDLE, result := None,
        inputState := (inputState st)\<lparr>text := [], files := []\<rparr>\<rparr>"

definition toggleTheme :: "App \<Rightarrow> App" where
  "toggleTheme st = st\<lparr>isDarkMode := \<not> isDarkMode st\<rparr>"

definition onLanguageChange :: "string \<Rightarrow> App \<Rightarrow> App" where
  "onLanguageChange lang st = st\<lparr>inputState := (inputState st)\<lparr>language := lang\<rparr>\<rparr>"

section \<open>The input card (components/InputCard.tsx)\<close>

definition MAX_FILE_SIZE_MB :: nat where
  "MAX_FILE_SIZE_MB = 20"

definition MAX_FILE_SIZE_BYTES :: nat where
  "MAX_FILE_SIZE_BYTES = MAX_FILE_SIZE_MB * 1024 * 1024"

definition getFileId :: "File \<Rightarrow> string" where
  "getFileId file = name file @ ''-'' @ decimal (fsize file) @ ''-'' @ decimal (lastModified file)"

text \<open>The state of the card that the handlers below touch: the validation errors and the
  upload progress per file id (a missing entry is \<open>None\<close>).\<close>

record InputCard =
  validationErrors :: "string list"
  uploadProgress :: "string \<Rightarrow> rat option"

definition quoted :: "string \<Rightarrow> string" where
  "quoted s = [CHR 0x22] @ s @ [CHR 0x22]"

definition exceeds_message :: "File \<Rightarrow> string" where
  "exceeds_message file = quoted (name file) @ '' exceeds '' @ decimal MAX_FILE_SIZE_MB @ ''MB.''"

definition unsupported_message :: "File \<Rightarrow> string" where
  "unsupported_message file = quoted (name file) @ '' is not supported.''"

definition isImage :: "File \<Rightarrow> bool" where
  "isImage file = startsWith (ftype file) ''image/''"

definition isPdf :: "File \<Rightarrow> bool" where
  "isPdf file = (ftype file = ''application/pdf'')"

definition isTxt :: "File \<Rightarrow> bool" where
  "isTxt file = (ftype file = ''text/plain'')"

text \<open>The synchronous part of \<open>simulateUpload\<close>: the progress of the file starts at 0. The
  timer it starts shows up as the step \<open>tick\<close> of the interface below.\<close>

definition simulateUpload :: "File \<Rightarrow> (string \<Rightarrow> rat option) \<Rightarrow> (string \<Rightarrow> rat option)" where
  "simulateUpload file progress = progress(getFileId file \<mapsto> 0)"

text \<open>The loop \<open>files.forEach\<close> of \<open>handleFiles\<close> over the accumulators \<open>validFiles\<close>, \<open>errors\<close>
  and the upload progress.\<close>

fun handleFiles_loop ::
  "File list \<Rightarrow> File list \<times> string list \<times> (string \<Rightarrow> rat option)
     \<Rightarrow> File list \<times> string list \<times> (string \<Rightarrow> rat option)" where
  "handleFiles_loop [] acc = acc"
| "handleFiles_loop (file # rest) (validFiles, errors, progress) =
     (if fsize file > MAX_FILE_SIZE_BYTES then
        handleFiles_loop rest (validFiles, errors @ [exceeds_message file], progress)
      else if isImage file \<or> isPdf file \<or> isTxt file then
        handleFiles_loop rest (validFiles @ [file], errors, simulateUpload file progress)
      else
        handleFiles_loop rest (validFiles, errors @ [unsupported_message file], progress))"

definition handleFiles :: "File list \<Rightarrow> InputState \<times> InputCard \<Rightarrow> InputState \<times> InputCard" where
  "handleFiles fs st =
     (case handleFiles_loop fs ([], [], uploadProgress (snd st)) of
        (validFiles, errors, progress) \<Rightarrow>
          ((if validFiles \<noteq> [] then (fst st)\<lparr>files := files (fst st) @ validFiles\<rparr> else fst st),
           (snd st)\<lparr>validationErrors := (if errors \<noteq> [] then errors else []),
                    uploadProgress := progress\<rparr>))"

definition removeFile :: "nat \<Rightarrow> InputState \<times> InputCard \<Rightarrow> InputState \<times> InputCard" where
  "removeFile index st =
     ((fst st)\<lparr>files := take index (files (fst st)) @ drop (Suc index) (files (fst st))\<rparr>,
      (if index < length (files (fst st))
       then (snd st)\<lparr>uploadProgress := (uploadProgress (snd st))(getFileId (files (fst st) ! index) := None)\<rparr>
       else snd st))"

definition hasContent :: "InputState \<Rightarrow> bool" where
  "hasContent i = (length (trim (text i)) > 0 \<or> length (files i) > 0)"

definition isUploading :: "InputState \<Rightarrow> InputCard \<Rightarrow> bool" where
  "isUploading i c =
     list_ex (\<lambda>f. (case uploadProgress c (getFileId f) of None \<Rightarrow> 0 | Some p \<Rightarrow> p) < 100) (files i)"

text \<open>\<open>isLoading\<close> is the prop that \<open>App\<close> passes to the card; \<open>submit_disabled\<close> is the
  \<open>disabled\<close> attribute of the submit button.\<close>

definition isLoading :: "App \<Rightarrow> bool" where
  "isLoading st = (status st = PROCESSING)"

definition submit_disabled :: "App \<Rightarrow> InputCard \<Rightarrow> bool" where
  "submit_disabled st c =
     (\<not> hasContent (inputState st) \<or> isLoading st \<or> isUploading (inputState st) c)"

section \<open>The interface as a transition system\<close>

text \<open>
  The state of the page: the hooks of \<open>App\<close>, the hooks of the input card, and the number
  of calls of \<open>handleSubmit\<close> whose awaited work has not settled yet. The last one is not a
  variable of the program; it counts what the program has in flight.
\<close>

text \<open>Truthiness of the result hook: null, \<open>false\<close>, 0 and the empty string are falsy.\<close>

fun truthy_json :: "json option \<Rightarrow> bool" where
  "truthy_json None = False"
| "truthy_json (Some JNull) = False"
| "truthy_json (Some (JBool b)) = b"
| "truthy_json (Some (JNumber n)) = (n \<noteq> 0)"
| "truthy_json (Some (JString s)) = (s \<noteq> [])"
| "truthy_json (Some v) = True"

record UI =
  app :: App
  inputCard :: InputCard
  outstanding :: nat

definition initial :: "bool \<Rightarrow> UI" where
  "initial dark =
     \<lparr>app = \<lparr>status = IDLE,
             inputState = \<lparr>text = [], files = [], language = ''English''\<rparr>,
             result = None, errorMsg = [], showPrivacy = False, isDarkMode = dark\<rparr>,
      inputCard = \<lparr>validationErrors = [], uploadProgress = (\<lambda>fid. None)\<rparr>,
      outstanding = 0\<rparr>"

definition with_input :: "InputState \<times> InputCard \<Rightarrow> UI \<Rightarrow> UI" where
  "with_input ic s = s\<lparr>app := (app s)\<lparr>inputState := fst ic\<rparr>, inputCard := snd ic\<rparr>"

text \<open>
  One step is one event handled by the page:
  \<^item> \<open>submit\<close>: a click on the submit button, possible when the button is not disabled; it
    runs \<open>handleSubmit\<close> up to its first \<open>await\<close>;
  \<^item> \<open>settle\<close>: the awaited work of a call in flight settles with some outcome and the
    rest of \<open>handleSubmit\<close> runs;
  \<^item> \<open>reset\<close>: a click on the button that is rendered with the results, that is, when
    \<open>status === AppStatus.SUCCESS && result\<close> holds;
  \<^item> \<open>add_files\<close>, \<open>remove_file\<close>, \<open>edit_text\<close>, \<open>change_language\<close>: the input handlers;
  \<^item> \<open>toggle_theme\<close>, \<open>privacy\<close>, \<open>clear_errors\<close>: the remaining setters;
  \<^item> \<open>tick\<close>: a timer of \<open>simulateUpload\<close> advances the progress of a file.
\<close>

inductive step :: "UI \<Rightarrow> UI \<Rightarrow> bool" where
  submit: "\<not> submit_disabled (app s) (inputCard s) \<Longrightarrow>
     step s (s\<lparr>app := handleSubmit_begin (app s), outstanding := Suc (outstanding s)\<rparr>)"
| settle: "0 < outstanding s \<Longrightarrow>
     step s (s\<lparr>app := handleSubmit_settle outcome (app s), outstanding := outstanding s - 1\<rparr>)"
| reset: "status (app s) = SUCCESS \<Longrightarrow> truthy_json (result (app s)) \<Longrightarrow>
     step s (s\<lparr>app := handleReset (app s)\<rparr>)"
| add_files: "step s (with_input (handleFiles fs (inputState (app s), inputCard s)) s)"
| remove_file: "step s (with_input (removeFile index (inputState (app s), inputCard s)) s)"
| edit_text: "step s (s\<lparr>app := (app s)\<lparr>inputState := (inputState (app s))\<lparr>text := t\<rparr>\<rparr>\<rparr>)"
| change_language: "step s (s\<lparr>app := onLanguageChange lang (app s)\<rparr>)"
| toggle_theme: "step s (s\<lparr>app := toggleTheme (app s)\<rparr>)"
| privacy: "step s (s\<lparr>app := (app s)\<lparr>showPrivacy := b\<rparr>\<rparr>)"
| clear_errors: "step s (s\<lparr>inputCard := (inputCard s)\<lparr>validationErrors := []\<rparr>\<rparr>)"
| tick: "0 \<le> p \<Longrightarrow> p \<le> 100 \<Longrightarrow>
     step s (s\<lparr>inputCard := (inputCard s)\<lparr>uploadProgress := (uploadProgress (inputCard s))(fid \<mapsto> p)\<rparr>\<rparr>)"

inductive reachable :: "UI \<Rightarrow> bool" where
  start: "reachable (initial dark)"
| next_step: "reachable s \<Longrightarrow> step s s' \<Longrightarrow> reachable s'"

text \<open>Either a request is in flight and the status is \<open>PROCESSING\<close>, or none is and the
  status is another one.\<close>

definition in_step :: "UI \<Rightarrow> bool" where
  "in_step s = (if status (app s) = PROCESSING then outstanding s = 1 else outstanding s = 0)"

section \<open>Concrete inputs\<close>

text \<open>The inputs at which the results below are evaluated.\<close>

definition unavailable :: thrown where
  "unavailable = Thrown (Some ''503 Service Unavailable'') (Some 503)"

definition forbidden :: thrown where
  "forbidden = Thrown (Some ''Permission denied'') (Some 403)"

definition bad_request :: thrown where
  "bad_request = Thrown (Some ''400 Bad Request'') (Some 400)"

definition too_many_requests :: thrown where
  "too_many_requests = Thrown (Some ''429 Too Many Requests'') (Some 429)"

text \<open>An error that has nothing to do with the network or with quotas: the \<open>TypeError\<close> of a
  property read on \<open>undefined\<close>.\<close>

definition type_error :: thrown where
  "type_error = Thrown (Some ''Cannot read properties of undefined'') None"

text \<open>An operation that is rejected with the same error at every invocation.\<close>

definition failing :: "thrown \<Rightarrow> nat \<Rightarrow> thrown + unit" where
  "failing e k = Inl e"

definition sample_txt :: File where
  "sample_txt = \<lparr>name = ''lease.txt'', ftype = ''text/plain'', fsize = 12, lastModified = 0\<rparr>"

definition sample_img :: File where
  "sample_img = \<lparr>name = ''scan.png'', ftype = ''image/png'', fsize = 2048, lastModified = 0\<rparr>"

definition sample_pdf :: File where
  "sample_pdf = \<lparr>name = ''notice.pdf'', ftype = ''application/pdf'', fsize = 4096, lastModified = 0\<rparr>"

definition sample_big :: File where
  "sample_big = \<lparr>name = ''big.pdf'', ftype = ''application/pdf'', fsize = 20971521, lastModified = 0\<rparr>"

definition sample_exe :: File where
  "sample_exe = \<lparr>name = ''setup.exe'', ftype = ''application/x-msdownload'', fsize = 100, lastModified = 0\<rparr>"

text \<open>A response text that follows the schema, and the value it denotes.\<close>

definition conforming_text :: string where
  "conforming_text =
     ''{'' @ quoted ''tldr'' @ '':'' @ quoted ''Pay the rent.'' @ '',''
     @ quoted ''ruleLens'' @ '':[{'' @ quoted ''term'' @ '':'' @ quoted ''lessee''
     @ '','' @ quoted ''definition'' @ '':'' @ quoted ''the tenant'' @ ''}],''
     @ quoted ''actionableSteps'' @ '':['' @ quoted ''Pay by Friday.'' @ ''],''
     @ quoted ''sourceCitation'' @ '':'' @ quoted ''Page 1'' @ ''}''"

definition conforming_value :: json where
  "conforming_value =
     JObject [(''tldr'', JString ''Pay the rent.''),
              (''ruleLens'', JArray [JObject [(''term'', JString ''lessee''),
                                              (''definition'', JString ''the tenant'')]]),
              (''actionableSteps'', JArray [JString ''Pay by Friday.'']),
              (''sourceCitation'', JString ''Page 1'')]"

text \<open>\<open>JSON.parse\<close> on the two texts that the examples use: the empty object and the
  conforming text. Nothing below depends on what it does elsewhere.\<close>

definition example_JSON_parse :: "string \<Rightarrow> thrown + json" where
  "example_JSON_parse s =
     (if s = ''{}'' then Inr (JObject [])
      else if s = conforming_text then Inr conforming_value
      else Inl (Thrown (Some ''Unexpected token'') None))"

text \<open>An environment in which every browser operation succeeds and the model answers
  with the text \<open>answer\<close> and the finish reason \<open>STOP\<close>.\<close>

definition example_world :: "string option \<Rightarrow> string \<Rightarrow> world" where
  "example_world key answer =
     \<lparr>fileText = (\<lambda>f. Some ''Rent is due.''),
      fileDataURL = (\<lambda>f. Some ''data:application/pdf;base64,JVBERi0=''),
      imageSize = (\<lambda>f. Some (3000, 2000)),
      canvas2d = True,
      canvasJpeg = (\<lambda>f d. ''data:image/jpeg;base64,/9j/4AAQ''),
      settleTime = (\<lambda>i. i),
      apiKey = key,
      generateContent = (\<lambda>req k. Inr \<lparr>finishReason = Some ''STOP'', responseText = Some answer\<rparr>),
      JSON_parse = example_JSON_parse\<rparr>"

text \<open>The hooks of \<open>App\<close> once the text \<open>t\<close> has been typed into the fresh page.\<close>

definition typed :: "string \<Rightarrow> App" where
  "typed t = (app (initial False))\<lparr>inputState := \<lparr>text = t, files = [], language = ''English''\<rparr>\<rparr>"

text \<open>The same environment with a reader that fails on every text file.\<close>

definition unreadable_world :: world where
  "unreadable_world = (example_world (Some ''k'') ''{}'')\<lparr>fileText := (\<lambda>f. None)\<rparr>"

text \<open>The page after the text has been typed, and after the submit button has been
  clicked.\<close>

definition typing :: UI where
  "typing = (initial False)\<lparr>app := typed ''Rent is due.''\<rparr>"

definition waiting :: UI where
  "waiting = typing\<lparr>app := handleSubmit_begin (typed ''Rent is due.''), outstanding := 1\<rparr>"

section \<open>The retry wrapper\<close>

declare callWithRetry.simps [simp del]

declare decimal.simps [simp del]

lemma callWithRetry_step_fail:
  "fn k = Inl e \<Longrightarrow> retryable e \<Longrightarrow> 0 < retries \<Longrightarrow>
   callWithRetry fn retries backoff k =
     (fst (callWithRetry fn (retries - 1) (backoff * 2) (Suc k)),
      Invoke k # Wait backoff # snd (callWithRetry fn (retries - 1) (backoff * 2) (Suc k)))"
  by (subst callWithRetry.simps) (simp add: retryable_def split: prod.splits)

lemma callWithRetry_last_fail:
  "fn k = Inl e \<Longrightarrow> retries \<le> 0 \<Longrightarrow> callWithRetry fn retries backoff k = (Inl e, [Invoke k])"
  by (subst callWithRetry.simps) simp

lemma callWithRetry_client_error:
  "fn k = Inl e \<Longrightarrow> \<not> retryable e \<Longrightarrow> callWithRetry fn retries backoff k = (Inl e, [Invoke k])"
  by (subst callWithRetry.simps) (simp add: retryable_def)

lemma callWithRetry_success:
  "fn k = Inr v \<Longrightarrow> callWithRetry fn retries backoff k = (Inr v, [Invoke k])"
  by (subst callWithRetry.simps) simp

lemma callWithRetry_Inr_source:
  "callWithRetry fn retries backoff k = (Inr v, evs) \<Longrightarrow> \<exists>j. k \<le> j \<and> j \<le> k + nat retries \<and> fn j = Inr v"
proof (induction fn retries backoff k arbitrary: evs rule: callWithRetry.induct)
  case (1 fn retries backoff k)
  show ?case
  proof (cases "fn k")
    case (Inr w)
    with "1.prems" have "w = v" by (simp add: callWithRetry_success)
    with Inr show ?thesis by auto
  next
    case (Inl e)
    show ?thesis
    proof (cases "(isClientError e \<and> \<not> isQuotaError e) \<or> retries \<le> 0")
      case True
      with Inl "1.prems" show ?thesis
        by (subst (asm) callWithRetry.simps) simp
    next
      case False
      from Inl False "1.prems" obtain evs' where
        rec: "callWithRetry fn (retries - 1) (backoff * 2) (Suc k) = (Inr v, evs')"
        by (subst (asm) callWithRetry.simps) (auto split: prod.splits)
      from "1.IH" [OF Inl False rec] obtain j where
        "Suc k \<le> j" "j \<le> Suc k + nat (retries - 1)" "fn j = Inr v" by blast
      moreover from False have "Suc (nat (retries - 1)) = nat retries" by arith
      ultimately show ?thesis by (intro exI [of _ j]) auto
    qed
  qed
qed

lemma callWithRetry_invocations_le:
  "invocations (snd (callWithRetry fn retries backoff k)) \<le> nat retries + 1"
proof (induction fn retries backoff k rule: callWithRetry.induct)
  case (1 fn retries backoff k)
  show ?case
  proof (cases "fn k")
    case (Inr v)
    then show ?thesis
      by (simp add: callWithRetry_success invocations_def)
  next
    case (Inl e)
    show ?thesis
    proof (cases "(isClientError e \<and> \<not> isQuotaError e) \<or> retries \<le> 0")
      case True
      with Inl show ?thesis
        by (subst callWithRetry.simps) (simp add: invocations_def)
    next
      case False
      with Inl 1 have "invocations (snd (callWithRetry fn (retries - 1) (backoff * 2) (Suc k)))
          \<le> nat (retries - 1) + 1"
        by blast
      moreover from False have "nat (retries - 1) + 1 = nat retries" by arith
      ultimately show ?thesis using Inl False
        by (subst callWithRetry.simps) (auto simp: invocations_def split: prod.splits)
    qed
  qed
qed

lemma retryable_unavailable: "retryable unavailable"
  by (simp add: retryable_def isClientError_def isQuotaError_def message_includes_def unavailable_def)

text \<open>
  Claim C1. When every invocation of \<open>fn\<close> fails with an error that the catch block retries,
  \<open>callWithRetry\<close> with its default arguments invokes \<open>fn\<close> four times (the first attempt and
  \<open>MAX_RETRIES\<close> = 3 retries), waits 1000, 2000 and 4000 ms before the retries, makes no
  further invocation, and rejects with the error of the last invocation.
\<close>

theorem callWithRetry_bounded_backoff:
  assumes "\<forall>k. \<exists>e. fn k = Inl e \<and> retryable e"
  shows "callWithRetry fn MAX_RETRIES INITIAL_RETRY_DELAY 0 =
           (fn 3, [Invoke 0, Wait 1000, Invoke 1, Wait 2000, Invoke 2, Wait 4000, Invoke 3])
         \<and> invocations (snd (callWithRetry fn MAX_RETRIES INITIAL_RETRY_DELAY 0)) = 4"
proof -
  from assms obtain e0 where e0: "fn 0 = Inl e0" "retryable e0" by blast
  from assms obtain e1 where e1: "fn (Suc 0) = Inl e1" "retryable e1" by blast
  from assms obtain e2 where e2: "fn (Suc (Suc 0)) = Inl e2" "retryable e2" by blast
  from assms obtain e3 where e3: "fn (Suc (Suc (Suc 0))) = Inl e3" by blast
  have s3: "callWithRetry fn 0 8000 (Suc (Suc (Suc 0))) = (Inl e3, [Invoke 3])"
    using callWithRetry_last_fail [of fn "Suc (Suc (Suc 0))" e3 0 8000] e3
    by (simp add: numeral_3_eq_3)
  have s2: "callWithRetry fn 1 4000 (Suc (Suc 0)) = (Inl e3, [Invoke 2, Wait 4000, Invoke 3])"
    using callWithRetry_step_fail [of fn "Suc (Suc 0)" e2 1 4000] e2 s3
    by (simp add: numeral_2_eq_2)
  have s1: "callWithRetry fn 2 2000 (Suc 0) =
      (Inl e3, [Invoke 1, Wait 2000, Invoke 2, Wait 4000, Invoke 3])"
    using callWithRetry_step_fail [of fn "Suc 0" e1 2 2000] e1 s2 by simp
  have s0: "callWithRetry fn 3 1000 0 =
      (Inl e3, [Invoke 0, Wait 1000, Invoke 1, Wait 2000, Invoke 2, Wait 4000, Invoke 3])"
    using callWithRetry_step_fail [of fn 0 e0 3 1000] e0 s1 by simp
  from e3 have "fn 3 = Inl e3" by (simp add: numeral_3_eq_3)
  with s0 show ?thesis
    by (simp add: MAX_RETRIES_def INITIAL_RETRY_DELAY_def invocations_def)
qed

theorem callWithRetry_bounded_backoff_witness:
  "retryable unavailable
   \<and> callWithRetry (failing unavailable) MAX_RETRIES INITIAL_RETRY_DELAY 0 =
       (Inl unavailable, [Invoke 0, Wait 1000, Invoke 1, Wait 2000, Invoke 2, Wait 4000, Invoke 3])"
  using callWithRetry_bounded_backoff [of "failing unavailable"] retryable_unavailable
  by (simp add: failing_def)

lemma decimal_400: "decimal 400 = ''400''"
  by (subst decimal.simps, subst decimal.simps, subst decimal.simps) code_simp

lemma marked_400: "marked e 400 = isClientError e"
  by (simp add: marked_def isClientError_def decimal_400)

lemma isClientError_4xx: "isClientError e \<Longrightarrow> client_error_4xx e"
proof -
  assume "isClientError e"
  then have "marked e 400" by (simp add: marked_400)
  moreover have "(400::nat) \<in> set [400..<500]" by (simp only: set_upt) simp
  ultimately show ?thesis unfolding client_error_4xx_def list_ex_iff by blast
qed

lemma callWithRetry_first_event:
  "\<exists>evs. snd (callWithRetry fn retries backoff k) = Invoke k # evs"
  by (subst callWithRetry.simps) (auto split: sum.splits prod.splits)

text \<open>
  Claim C2, as amended. \<open>callWithRetry\<close> rethrows at once, with no further invocation of
  \<open>fn\<close> and no delay, an error that is marked 400 (in its message or its status) and not
  marked 429. While retries are left it waits for the current backoff and invokes \<open>fn\<close>
  again after every quota (429) error and after every error that carries no mark of a 4xx
  client error, whether or not that error is a transient network failure.
\<close>

theorem callWithRetry_policy:
  "(fn k = Inl e \<and> isClientError e \<and> \<not> isQuotaError e \<longrightarrow>
      callWithRetry fn retries backoff k = (Inl e, [Invoke k]))
   \<and> (fn k = Inl e \<and> (isQuotaError e \<or> \<not> client_error_4xx e) \<and> 0 < retries \<longrightarrow>
      fst (callWithRetry fn retries backoff k) =
        fst (callWithRetry fn (retries - 1) (backoff * 2) (Suc k))
      \<and> (\<exists>evs. snd (callWithRetry fn retries backoff k) =
                  Invoke k # Wait backoff # Invoke (Suc k) # evs))"
proof (intro conjI impI)
  assume "fn k = Inl e \<and> isClientError e \<and> \<not> isQuotaError e"
  then show "callWithRetry fn retries backoff k = (Inl e, [Invoke k])"
    by (simp add: callWithRetry_client_error retryable_def)
next
  assume a: "fn k = Inl e \<and> (isQuotaError e \<or> \<not> client_error_4xx e) \<and> 0 < retries"
  then have "retryable e" using isClientError_4xx by (auto simp: retryable_def)
  with a have unfold: "callWithRetry fn retries backoff k =
     (fst (callWithRetry fn (retries - 1) (backoff * 2) (Suc k)),
      Invoke k # Wait backoff # snd (callWithRetry fn (retries - 1) (backoff * 2) (Suc k)))"
    by (simp add: callWithRetry_step_fail)
  then show "fst (callWithRetry fn retries backoff k) =
        fst (callWithRetry fn (retries - 1) (backoff * 2) (Suc k))" by simp
  from callWithRetry_first_event [of fn "retries - 1" "backoff * 2" "Suc k"] unfold
  show "\<exists>evs. snd (callWithRetry fn retries backoff k) =
                  Invoke k # Wait backoff # Invoke (Suc k) # evs" by auto
qed

lemma includes_str_set: "includes_str m s \<Longrightarrow> set s \<subseteq> set m"
proof (induction m)
  case Nil
  then show ?case by simp
next
  case (Cons c cs)
  from Cons.prems have "prefix s (c # cs) \<or> includes_str cs s" by simp
  then show ?case
  proof
    assume "prefix s (c # cs)"
    then show ?thesis by (rule set_mono_prefix)
  next
    assume "includes_str cs s"
    with Cons.IH show ?thesis by auto
  qed
qed

lemma decimal_4xx: "400 \<le> c \<Longrightarrow> c < 500 \<Longrightarrow> CHR ''4'' \<in> set (decimal c)"
proof -
  assume c: "400 \<le> c" "c < 500"
  then have d: "c div 10 div 10 = 4" by arith
  have "decimal 4 = ''4''" by (subst decimal.simps) code_simp
  with d have "decimal (c div 10 div 10) = ''4''" by simp
  moreover from c have "decimal (c div 10) = decimal (c div 10 div 10) @ [char_of (48 + c div 10 mod 10)]"
    by (subst decimal.simps) simp
  moreover from c have "decimal c = decimal (c div 10) @ [char_of (48 + c mod 10)]"
    by (subst decimal.simps) simp
  ultimately show ?thesis by simp
qed

lemma no_mark_not_4xx:
  assumes "status_code e = None" and "\<forall>m. message e = Some m \<longrightarrow> CHR ''4'' \<notin> set m"
  shows "\<not> client_error_4xx e"
proof
  assume "client_error_4xx e"
  then have "\<exists>c\<in>set [400..<500]. marked e c"
    by (simp only: client_error_4xx_def list_ex_iff)
  then have "\<exists>c\<in>{400..<500}. marked e c" by (simp only: set_upt)
  then obtain c where c: "400 \<le> c" "c < 500" "marked e c"
    by (auto simp only: atLeastLessThan_iff)
  with assms(1) obtain m where m: "message e = Some m" "includes_str m (decimal c)"
    by (auto simp: marked_def message_includes_def split: option.splits)
  from includes_str_set [OF m(2)] decimal_4xx [OF c(1,2)] have "CHR ''4'' \<in> set m" by blast
  with assms(2) m(1) show False by blast
qed

lemma not_4xx_type_error: "\<not> client_error_4xx type_error"
  by (rule no_mark_not_4xx) (simp_all add: type_error_def)

theorem callWithRetry_policy_witness:
  "callWithRetry (failing bad_request) MAX_RETRIES INITIAL_RETRY_DELAY 0 = (Inl bad_request, [Invoke 0])
   \<and> isQuotaError too_many_requests
   \<and> (\<exists>evs. snd (callWithRetry (failing too_many_requests) MAX_RETRIES INITIAL_RETRY_DELAY 0) =
               Invoke 0 # Wait 1000 # Invoke 1 # evs)
   \<and> \<not> client_error_4xx type_error
   \<and> (\<exists>evs. snd (callWithRetry (failing type_error) MAX_RETRIES INITIAL_RETRY_DELAY 0) =
               Invoke 0 # Wait 1000 # Invoke 1 # evs)"
proof -
  have b: "failing bad_request 0 = Inl bad_request \<and> isClientError bad_request \<and> \<not> isQuotaError bad_request"
    by (simp add: failing_def bad_request_def isClientError_def isQuotaError_def message_includes_def)
  have q: "isQuotaError too_many_requests"
    by (simp add: too_many_requests_def isQuotaError_def)
  have q': "failing too_many_requests 0 = Inl too_many_requests
      \<and> (isQuotaError too_many_requests \<or> \<not> client_error_4xx too_many_requests) \<and> 0 < MAX_RETRIES"
    using q by (simp add: failing_def MAX_RETRIES_def)
  have t': "failing type_error 0 = Inl type_error
      \<and> (isQuotaError type_error \<or> \<not> client_error_4xx type_error) \<and> 0 < MAX_RETRIES"
    using not_4xx_type_error by (simp add: failing_def MAX_RETRIES_def)
  from callWithRetry_policy [of "failing bad_request" 0 bad_request MAX_RETRIES INITIAL_RETRY_DELAY] b
  have 1: "callWithRetry (failing bad_request) MAX_RETRIES INITIAL_RETRY_DELAY 0 = (Inl bad_request, [Invoke 0])"
    by blast
  from callWithRetry_policy [of "failing too_many_requests" 0 too_many_requests MAX_RETRIES INITIAL_RETRY_DELAY] q'
  have 2: "\<exists>evs. snd (callWithRetry (failing too_many_requests) MAX_RETRIES INITIAL_RETRY_DELAY 0) =
               Invoke 0 # Wait 1000 # Invoke 1 # evs"
    by (simp add: INITIAL_RETRY_DELAY_def)
  from callWithRetry_policy [of "failing type_error" 0 type_error MAX_RETRIES INITIAL_RETRY_DELAY] t'
  have 3: "\<exists>evs. snd (callWithRetry (failing type_error) MAX_RETRIES INITIAL_RETRY_DELAY 0) =
               Invoke 0 # Wait 1000 # Invoke 1 # evs"
    by (simp add: INITIAL_RETRY_DELAY_def)
  from 1 q 2 not_4xx_type_error 3 show ?thesis by blast
qed

lemma failing_run:
  "retryable e \<Longrightarrow>
   callWithRetry (failing e) MAX_RETRIES INITIAL_RETRY_DELAY 0 =
     (Inl e, [Invoke 0, Wait 1000, Invoke 1, Wait 2000, Invoke 2, Wait 4000, Invoke 3])"
proof -
  assume r: "retryable e"
  have f: "\<And>k. failing e k = Inl e" by (simp add: failing_def)
  have s3: "callWithRetry (failing e) 0 8000 3 = (Inl e, [Invoke 3])"
    using f by (rule callWithRetry_last_fail) simp
  have s2: "callWithRetry (failing e) 1 4000 2 = (Inl e, [Invoke 2, Wait 4000, Invoke 3])"
    using callWithRetry_step_fail [of "failing e" 2 e 1 4000] f r s3 by (simp add: eval_nat_numeral)
  have s1: "callWithRetry (failing e) 2 2000 1 = (Inl e, [Invoke 1, Wait 2000, Invoke 2, Wait 4000, Invoke 3])"
    using callWithRetry_step_fail [of "failing e" 1 e 2 2000] f r s2 by (simp add: eval_nat_numeral)
  have s0: "callWithRetry (failing e) 3 1000 0 =
      (Inl e, [Invoke 0, Wait 1000, Invoke 1, Wait 2000, Invoke 2, Wait 4000, Invoke 3])"
    using callWithRetry_step_fail [of "failing e" 0 e 3 1000] f r s1 by simp
  then show ?thesis by (simp add: MAX_RETRIES_def INITIAL_RETRY_DELAY_def)
qed

text \<open>
  Claim C2 as stated fails: an error that is neither a network failure nor a quota failure,
  and that carries no status at all, is not rethrown at once. \<open>fn\<close> is invoked four times,
  with delays of 1000, 2000 and 4000 ms.
\<close>

theorem callWithRetry_retries_other_errors_counterexample:
  "callWithRetry (failing type_error) MAX_RETRIES INITIAL_RETRY_DELAY 0 =
     (Inl type_error, [Invoke 0, Wait 1000, Invoke 1, Wait 2000, Invoke 2, Wait 4000, Invoke 3])
   \<and> \<not> isQuotaError type_error \<and> status_code type_error = None"
proof -
  have "retryable type_error" and "\<not> isQuotaError type_error" and "status_code type_error = None"
    by (simp_all add: retryable_def isClientError_def isQuotaError_def message_includes_def type_error_def)
  with failing_run [of type_error] show ?thesis by simp
qed

text \<open>
  The guard tests the one code 400 where its comment names the 4xx client errors: a
  rejection with status 403 is retried like any other error.
\<close>

lemma callWithRetry_retries_forbidden:
  "callWithRetry (failing forbidden) MAX_RETRIES INITIAL_RETRY_DELAY 0 =
     (Inl forbidden, [Invoke 0, Wait 1000, Invoke 1, Wait 2000, Invoke 2, Wait 4000, Invoke 3])
   \<and> status_code forbidden = Some 403 \<and> client_error_4xx forbidden \<and> \<not> isQuotaError forbidden"
proof -
  have r: "retryable forbidden" and q: "\<not> isQuotaError forbidden" and s: "status_code forbidden = Some 403"
    by (simp_all add: retryable_def isClientError_def isQuotaError_def message_includes_def forbidden_def)
  have "marked forbidden 403" by (simp add: marked_def forbidden_def)
  moreover have "(403::nat) \<in> set [400..<500]" by (simp only: set_upt) simp
  ultimately have "client_error_4xx forbidden" unfolding client_error_4xx_def list_ex_iff by blast
  with failing_run [OF r] q s show ?thesis by simp
qed

section \<open>Rejected inputs and the shape of the result\<close>

lemma trim_empty_iff: "trim s = [] \<longleftrightarrow> list_all is_js_space s"
proof -
  have "trim s = [] \<longleftrightarrow> (\<forall>x\<in>set (dropWhile is_js_space s). is_js_space x)"
    by (simp add: trim_def dropWhile_eq_Nil_conv)
  also have "\<dots> \<longleftrightarrow> dropWhile is_js_space s = []"
  proof
    assume a: "\<forall>x\<in>set (dropWhile is_js_space s). is_js_space x"
    show "dropWhile is_js_space s = []"
    proof (rule ccontr)
      assume n: "dropWhile is_js_space s \<noteq> []"
      then have "\<not> is_js_space (hd (dropWhile is_js_space s))" by (rule hd_dropWhile)
      moreover from n have "hd (dropWhile is_js_space s) \<in> set (dropWhile is_js_space s)" by simp
      ultimately show False using a by blast
    qed
  qed (auto dest: set_dropWhileD)
  also have "\<dots> \<longleftrightarrow> list_all is_js_space s"
    by (simp add: dropWhile_eq_Nil_conv list_all_iff)
  finally show ?thesis .
qed

text \<open>
  Claim C8. Without an API key (undefined or empty) \<open>analyzeDocument\<close> throws the system
  error; with a key, when the processed files contribute no part and the typed text is
  empty or consists of white space only, it throws the error for missing input. In both
  cases the model is not invoked.
\<close>

theorem analyzeDocument_rejects_degenerate_input:
  "(\<not> truthy (apiKey env) \<longrightarrow>
      analyzeDocument env txt fs lang =
        (Inl (Error ''System Error: API Key is missing. Please check configuration.''), []))
   \<and> (truthy (apiKey env) \<and> concat (map file_parts fs) = [] \<and> list_all is_js_space txt \<longrightarrow>
      analyzeDocument env txt fs lang =
        (Inl (Error ''No input provided. Please upload a file or enter text.''), []))"
  by (simp add: analyzeDocument_def request_parts_def trim_empty_iff)

theorem analyzeDocument_rejects_degenerate_input_witness:
  "\<not> truthy (apiKey (example_world None ''{}''))
   \<and> analyzeDocument (example_world None ''{}'') ''Rent is due.'' [] ''English'' =
        (Inl (Error ''System Error: API Key is missing. Please check configuration.''), [])
   \<and> truthy (apiKey (example_world (Some ''k'') ''{}''))
   \<and> concat (map file_parts [inline_part ('''', '''')]) = []
   \<and> list_all is_js_space [CHR 0x20, CHR 0x0A, CHR 0x09]
   \<and> analyzeDocument (example_world (Some ''k'') ''{}'') [CHR 0x20, CHR 0x0A, CHR 0x09]
        [inline_part ('''', '''')] ''English'' =
        (Inl (Error ''No input provided. Please upload a file or enter text.''), [])"
proof -
  have a: "\<not> truthy (apiKey (example_world None ''{}''))"
    and b: "truthy (apiKey (example_world (Some ''k'') ''{}''))"
    by (simp_all add: example_world_def)
  have c: "concat (map file_parts [inline_part ('''', '''')]) = []"
    by (simp add: file_parts_def inline_part_def)
  have d: "list_all is_js_space [CHR 0x20, CHR 0x0A, CHR 0x09]"
    by (simp add: is_js_space_def)
  from a b c d
    analyzeDocument_rejects_degenerate_input
      [of "example_world None ''{}''" "''Rent is due.''" "[]" "''English''"]
    analyzeDocument_rejects_degenerate_input
      [of "example_world (Some ''k'') ''{}''" "[CHR 0x20, CHR 0x0A, CHR 0x09]"
          "[inline_part ('''', '''')]" "''English''"]
  show ?thesis by blast
qed

lemma read_response_Inr:
  "read_response env response = Inr v \<Longrightarrow>
   \<exists>t. responseText response = Some t \<and> t \<noteq> [] \<and> JSON_parse env t = Inr v"
  by (cases "responseText response") (auto simp: read_response_def split: if_splits)

lemma analyzeDocument_Inr:
  assumes "analyzeDocument env txt fs lang = (Inr v, evs)"
  shows "\<exists>response. callWithRetry
            (generateContent env
               \<lparr>model = ''gemini-2.5-flash'', parts = request_parts txt fs, targetLanguage = lang\<rparr>)
            MAX_RETRIES INITIAL_RETRY_DELAY 0 = (Inr response, evs)
          \<and> read_response env response = Inr v"
  using assms
  by (auto simp: analyzeDocument_def split: if_splits prod.splits sum.splits)

text \<open>
  Claim C3, as amended. A successful call of \<open>analyzeDocument\<close> returns what \<open>JSON.parse\<close>
  yields on the non-empty text of a response that the model gave in at most four
  invocations; nothing checks its shape. The value has the shape of \<open>AptusResponse\<close> when
  the external API honours the schema, that is, when every response text it delivers parses
  to a value of that shape.
\<close>

theorem analyzeDocument_returns_parsed_text:
  assumes "analyzeDocument env txt fs lang = (Inr v, evs)"
  shows "(\<exists>k\<le>3. \<exists>response t.
            generateContent env
              \<lparr>model = ''gemini-2.5-flash'', parts = request_parts txt fs, targetLanguage = lang\<rparr> k
              = Inr response
            \<and> responseText response = Some t \<and> t \<noteq> [] \<and> JSON_parse env t = Inr v)
         \<and> ((\<forall>req k response t w.
                generateContent env req k = Inr response \<longrightarrow> responseText response = Some t \<longrightarrow>
                JSON_parse env t = Inr w \<longrightarrow> isAptusResponse w)
              \<longrightarrow> isAptusResponse v)"
proof -
  let ?req = "\<lparr>model = ''gemini-2.5-flash'', parts = request_parts txt fs, targetLanguage = lang\<rparr>"
  from analyzeDocument_Inr [OF assms] obtain response where
    call: "callWithRetry (generateContent env ?req) MAX_RETRIES INITIAL_RETRY_DELAY 0 = (Inr response, evs)"
    and rd: "read_response env response = Inr v" by blast
  from callWithRetry_Inr_source [OF call] obtain k where
    k: "k \<le> 3" "generateContent env ?req k = Inr response"
    by (auto simp: MAX_RETRIES_def)
  from read_response_Inr [OF rd] obtain t where
    t: "responseText response = Some t" "t \<noteq> []" "JSON_parse env t = Inr v" by blast
  from k t show ?thesis by blast
qed

lemma isAptusResponse_conforming: "isAptusResponse conforming_value"
  by (simp add: conforming_value_def)

lemma example_parse_conforming: "example_JSON_parse conforming_text = Inr conforming_value"
  by (simp add: example_JSON_parse_def conforming_text_def quoted_def)

lemma example_analysis:
  "answer \<noteq> [] \<Longrightarrow> example_JSON_parse answer = Inr v \<Longrightarrow>
   analyzeDocument (example_world (Some ''k'') answer) ''Rent is due.'' [] ''English'' =
     (Inr v, [Invoke 0])"
  by (simp add: analyzeDocument_def example_world_def request_parts_def trim_def is_js_space_def
        callWithRetry_success read_response_def)

theorem analyzeDocument_returns_parsed_text_witness:
  "analyzeDocument (example_world (Some ''k'') conforming_text) ''Rent is due.'' [] ''English'' =
     (Inr conforming_value, [Invoke 0])
   \<and> isAptusResponse conforming_value"
proof -
  have ne: "conforming_text \<noteq> []" by (simp add: conforming_text_def)
  have run: "analyzeDocument (example_world (Some ''k'') conforming_text) ''Rent is due.'' [] ''English'' =
     (Inr conforming_value, [Invoke 0])"
    using example_analysis [OF ne example_parse_conforming] .
  have honours: "\<forall>req k response t w.
      generateContent (example_world (Some ''k'') conforming_text) req k = Inr response \<longrightarrow>
      responseText response = Some t \<longrightarrow>
      JSON_parse (example_world (Some ''k'') conforming_text) t = Inr w \<longrightarrow> isAptusResponse w"
    using example_parse_conforming isAptusResponse_conforming
    by (auto simp: example_world_def)
  from analyzeDocument_returns_parsed_text [OF run] honours run show ?thesis by blast
qed

text \<open>
  Claim C3 as stated fails: when the model answers with the text of the empty object and the
  finish reason \<open>STOP\<close>, the call succeeds and returns the empty object, which has none of
  the four properties.
\<close>

theorem analyzeDocument_shape_counterexample:
  "analyzeDocument (example_world (Some ''k'') ''{}'') ''Rent is due.'' [] ''English'' =
     (Inr (JObject []), [Invoke 0])
   \<and> \<not> isAptusResponse (JObject [])"
  using example_analysis [of "''{}''" "JObject []"] by (simp add: example_JSON_parse_def)

section \<open>The scaling of images\<close>

lemma round_even_error: "\<bar>of_int (round_even q) - q\<bar> \<le> 1 / 2"
proof -
  have "of_int \<lfloor>q\<rfloor> \<le> q" "q < of_int \<lfloor>q\<rfloor> + 1" by linarith+
  then show ?thesis
    by (auto simp: round_even_def Let_def)
qed

lemma binade_ge1: assumes "1 \<le> x" shows "2 powi binade x \<le> x"
proof -
  define n where "n = nat \<lfloor>x\<rfloor>"
  define k where "k = floorlog 2 n"
  from assms have "1 \<le> \<lfloor>x\<rfloor>" by simp
  then have n: "0 < n" by (simp add: n_def)
  from floorlog_bounds [OF n, of 2] have b: "2 ^ (k - 1) \<le> n" by (simp add: k_def)
  from n have "k \<noteq> 0" by (simp add: k_def floorlog_eq_zero_iff)
  then have "int k - 1 = int (k - 1)" by simp
  then have "(2::rat) powi (int k - 1) = 2 ^ (k - 1)" by (simp only: power_int_of_nat)
  also have "\<dots> = of_nat (2 ^ (k - 1))" by simp
  also have "\<dots> \<le> of_nat n" using b by (simp only: of_nat_le_iff)
  also have "of_nat n = (of_int \<lfloor>x\<rfloor> :: rat)" using \<open>1 \<le> \<lfloor>x\<rfloor>\<close> by (simp add: n_def)
  also have "\<dots> \<le> x" by (rule of_int_floor_le)
  finally have "(2::rat) powi (int k - 1) \<le> x" .
  moreover have "binade x = int k - 1" using assms by (simp add: binade_def n_def k_def)
  ultimately show ?thesis by simp
qed

lemma binade_lt1: assumes "0 < x" and "x < 1" shows "2 powi binade x \<le> x"
proof -
  define n where "n = nat (\<lceil>1 / x\<rceil> - 1)"
  define m where "m = floorlog 2 n"
  from assms have "1 < 1 / x" by (simp add: field_simps)
  then have "1 < \<lceil>1 / x\<rceil>" by (simp only: less_ceiling_iff of_int_1)
  then have c: "1 \<le> \<lceil>1 / x\<rceil> - 1" by simp
  then have n: "0 < n" by (simp add: n_def)
  from floorlog_bounds [OF n, of 2] have "n < 2 ^ m" by (simp add: m_def)
  then have "int n < int (2 ^ m)" by (simp only: of_nat_less_iff)
  moreover from c have "0 \<le> \<lceil>1 / x\<rceil> - 1" by (rule order_trans [rotated]) simp
  then have "int n = \<lceil>1 / x\<rceil> - 1" unfolding n_def by (rule nat_0_le)
  ultimately have "\<lceil>1 / x\<rceil> - 1 < 2 ^ m" by (simp only: of_nat_power of_nat_numeral)
  then have "\<lceil>1 / x\<rceil> \<le> 2 ^ m" by arith
  then have "(of_int \<lceil>1 / x\<rceil> :: rat) \<le> of_int (2 ^ m)" by (simp only: of_int_le_iff)
  then have "(of_int \<lceil>1 / x\<rceil> :: rat) \<le> 2 ^ m" by (simp only: of_int_power of_int_numeral)
  with le_of_int_ceiling [of "1 / x"] have "1 / x \<le> 2 ^ m" by (rule order_trans)
  then have "1 / 2 ^ m \<le> x" using assms(1) by (simp add: field_simps)
  moreover have "binade x = - int m" using assms(2) by (simp add: binade_def n_def m_def)
  ultimately show ?thesis by (simp add: power_int_minus_divide)
qed

lemma binade_le: "0 < x \<Longrightarrow> 2 powi binade x \<le> x"
  using binade_ge1 [of x] binade_lt1 [of x] by (cases "1 \<le> x") simp_all

lemma round_double_error: assumes "0 < x" shows "\<bar>round_double x - x\<bar> \<le> x / 2 ^ 53"
proof -
  define u :: rat where "u = 2 powi (binade x - 52)"
  define r :: rat where "r = of_int (round_even (x / u))"
  have u: "0 < u" by (simp add: u_def)
  have "u = 2 powi binade x / 2 ^ 52" by (simp add: u_def power_int_diff)
  with binade_le [OF assms] have ux: "u \<le> x / 2 ^ 52" by (simp add: divide_right_mono)
  have rd: "round_double x = r * u"
    using assms by (simp add: round_double_def u_def r_def)
  have "(r - x / u) * u = r * u - x" using u by (simp add: field_simps)
  then have "\<bar>r * u - x\<bar> = \<bar>r - x / u\<bar> * \<bar>u\<bar>" by (simp only: abs_mult [symmetric])
  also have "\<dots> = \<bar>r - x / u\<bar> * u" using u by simp
  also have "\<dots> \<le> 1 / 2 * u" using round_even_error [of "x / u"] u
    by (simp only: r_def mult_right_mono less_imp_le)
  also have "\<dots> \<le> 1 / 2 * (x / 2 ^ 52)" using ux by simp
  also have "\<dots> = x / 2 ^ 53" by simp
  finally show ?thesis by (simp only: rd)
qed

lemma binade_gt_ge1: assumes "1 \<le> x" shows "x < 2 powi (binade x + 1)"
proof -
  define n where "n = nat \<lfloor>x\<rfloor>"
  define k where "k = floorlog 2 n"
  from assms have f: "1 \<le> \<lfloor>x\<rfloor>" by simp
  then have n: "0 < n" by (simp add: n_def)
  from floorlog_bounds [OF n, of 2] have "n < 2 ^ k" by (simp add: k_def)
  then have "Suc n \<le> 2 ^ k" by simp
  then have "(of_nat (Suc n) :: rat) \<le> of_nat (2 ^ k)" by (simp only: of_nat_le_iff)
  then have b: "(of_nat n :: rat) + 1 \<le> 2 ^ k" by simp
  have "of_nat n = (of_int \<lfloor>x\<rfloor> :: rat)" using f by (simp add: n_def)
  moreover have "x < of_int \<lfloor>x\<rfloor> + 1" using floor_correct [of x] by simp
  ultimately have "x < 2 ^ k" using b by linarith
  moreover have "binade x + 1 = int k" using assms by (simp add: binade_def n_def k_def)
  ultimately show ?thesis by (simp only: power_int_of_nat)
qed

lemma binade_gt_lt1: assumes "0 < x" and "x < 1" shows "x < 2 powi (binade x + 1)"
proof -
  define n where "n = nat (\<lceil>1 / x\<rceil> - 1)"
  define m where "m = floorlog 2 n"
  define p :: rat where "p = 2 ^ (m - 1)"
  have p: "0 < p" by (simp add: p_def)
  from assms have "1 < 1 / x" by (simp add: field_simps)
  then have "1 < \<lceil>1 / x\<rceil>" by (simp only: less_ceiling_iff of_int_1)
  then have c2: "0 < \<lceil>1 / x\<rceil> - 1" by (simp only: diff_gt_0_iff_gt)
  then have c1: "0 \<le> \<lceil>1 / x\<rceil> - 1" by (rule less_imp_le)
  from c2 have n: "0 < n" unfolding n_def by (simp only: zero_less_nat_eq)
  from floorlog_bounds [OF n, of 2] have "2 ^ (m - 1) \<le> n" by (simp add: m_def)
  then have "(of_nat (2 ^ (m - 1)) :: rat) \<le> of_nat n" by (simp only: of_nat_le_iff)
  then have A: "p \<le> of_nat n" by (simp add: p_def)
  have "int n = \<lceil>1 / x\<rceil> - 1" unfolding n_def using c1 by (rule nat_0_le)
  then have "(of_int (int n) :: rat) = of_int (\<lceil>1 / x\<rceil> - 1)" by (rule arg_cong)
  then have B: "(of_nat n :: rat) = of_int (\<lceil>1 / x\<rceil> - 1)" by (simp only: of_int_of_nat_eq)
  have C: "of_int (\<lceil>1 / x\<rceil> - 1) < 1 / x"
    using ceiling_correct [of "1 / x"] by (simp only: of_int_diff of_int_1)
  from A [unfolded B] C have "p < 1 / x" by (rule le_less_trans)
  then have "p * x < 1" by (simp only: pos_less_divide_eq [OF assms(1)])
  then have "x * p < 1" by (simp only: mult.commute)
  then have lt: "x < 1 / p" by (simp only: pos_less_divide_eq [OF p])
  have e1: "binade x = - int m" using assms(2) by (simp add: binade_def n_def m_def)
  from n have "m \<noteq> 0" by (simp add: m_def floorlog_eq_zero_iff)
  then have e2: "int (m - 1) = int m - 1" by simp
  have "binade x + 1 = - int (m - 1)" unfolding e1 e2 by linarith
  then have "(2 :: rat) powi (binade x + 1) = 2 powi (- int (m - 1))" by (rule arg_cong)
  also have "\<dots> = 1 / 2 powi int (m - 1)" by (rule power_int_minus_divide)
  also have "\<dots> = 1 / p" by (simp only: power_int_of_nat p_def)
  finally have "(2 :: rat) powi (binade x + 1) = 1 / p" .
  with lt show ?thesis by (simp only:)
qed

lemma binade_bounds: "0 < x \<Longrightarrow> 2 powi binade x \<le> x \<and> x < 2 powi (binade x + 1)"
  using binade_le [of x] binade_gt_ge1 [of x] binade_gt_lt1 [of x] by (cases "1 \<le> x") simp_all

lemma floorlog_eqI: "2 ^ (k - 1) \<le> x \<Longrightarrow> x < 2 ^ k \<Longrightarrow> floorlog 2 x = k"
proof (rule antisym)
  assume "x < 2 ^ k" then show "floorlog 2 x \<le> k" by (rule floorlog_leI) simp_all
next
  assume "2 ^ (k - 1) \<le> x" then show "k \<le> floorlog 2 x" by (rule floorlog_geI) simp
qed

lemma round_double_eval:
  assumes "0 < x" and "binade x = e" and "round_even (x / 2 powi (e - 52)) = m"
  shows "round_double x = of_int m * 2 powi (e - 52)"
  using assms by (simp add: round_double_def)

lemma factor_1932: "round_double (1536 / 1932) = 3580501567102009 / 4503599627370496"
proof -
  have f: "floorlog 2 (Suc 0) = 1" by (rule floorlog_eqI) simp_all
  have c: "\<lceil>161 / 128 :: rat\<rceil> = 2" by (rule ceiling_unique) simp_all
  have b: "binade (1536 / 1932) = - 1" by (simp add: binade_def c f)
  have q: "\<lfloor>1152921504606846976 / 161 :: rat\<rfloor> = 7161003134204018"
    by (rule floor_unique) simp_all
  have r: "round_even ((1536 / 1932) / 2 powi (- 1 - 52)) = 7161003134204018"
    by (simp add: round_even_def Let_def q)
  from round_double_eval [OF _ b r] show ?thesis by simp
qed

lemma height_1932: "round_double (1288 * (3580501567102009 / 4503599627370496)) = 9007199254740991 / 8796093022208"
proof -
  have f: "floorlog 2 1023 = 10" by (rule floorlog_eqI) simp_all
  have c: "\<lfloor>576460752303423449 / 562949953421312 :: rat\<rfloor> = 1023"
    by (rule floor_unique) simp_all
  have b: "binade (1288 * (3580501567102009 / 4503599627370496)) = 9" by (simp add: binade_def c f)
  have q: "\<lfloor>576460752303423449 / 64 :: rat\<rfloor> = 9007199254740991"
    by (rule floor_unique) simp_all
  have r: "round_even ((1288 * (3580501567102009 / 4503599627370496)) / 2 powi (9 - 52)) = 9007199254740991"
    by (simp add: round_even_def Let_def q)
  from round_double_eval [OF _ b r] show ?thesis by simp
qed

lemma two_step_error:
  fixes a q c s u :: rat
  assumes a: "0 \<le> a" and q: "0 \<le> q" and u: "0 \<le> u" "u \<le> 1"
    and c: "\<bar>c - q\<bar> \<le> q * u" and s: "\<bar>s - a * c\<bar> \<le> a * c * u"
  shows "\<bar>s - a * q\<bar> \<le> a * q * (4 * u)"
proof -
  define t where "t = a * q"
  have t: "0 \<le> t" using a q by (simp add: t_def)
  from c have "c \<le> q + q * u" by simp
  with a have "a * c \<le> a * (q + q * u)" by (rule mult_left_mono [rotated])
  then have ac: "a * c \<le> t + t * u" by (simp add: t_def algebra_simps)
  from ac u(1) have "a * c * u \<le> (t + t * u) * u" by (rule mult_right_mono)
  with s have 1: "\<bar>s - a * c\<bar> \<le> t * u + t * u * u" by (simp add: algebra_simps)
  have "\<bar>a * c - a * q\<bar> = a * \<bar>c - q\<bar>"
    using a by (simp add: right_diff_distrib [symmetric] abs_mult)
  also have "\<dots> \<le> a * (q * u)" using c a by (rule mult_left_mono)
  finally have 2: "\<bar>a * c - t\<bar> \<le> t * u" by (simp add: t_def algebra_simps)
  have "0 \<le> t * u" using t u(1) by simp
  with u(2) have 3: "t * u * u \<le> t * u * 1" by (rule mult_left_mono)
  have "\<bar>s - t\<bar> \<le> \<bar>s - a * c\<bar> + \<bar>a * c - t\<bar>" by simp
  with 1 2 3 \<open>0 \<le> t * u\<close> have "\<bar>s - t\<bar> \<le> 4 * (t * u)" by linarith
  then show ?thesis by (simp add: t_def algebra_simps)
qed

lemma scaled_side:
  fixes small large :: nat
  assumes "small \<le> large" and "1536 < large"
  defines "s \<equiv> round_double (of_nat small * round_double (1536 / of_nat large))"
  shows "\<bar>s - of_nat small * (1536 / of_nat large)\<bar> \<le> of_nat small * (1536 / of_nat large) / 2 ^ 51"
    and "s \<le> of_nat small"
    and "0 \<le> s"
proof -
  define a :: rat where "a = of_nat small"
  define q :: rat where "q = 1536 / of_nat large"
  define c where "c = round_double q"
  define u :: rat where "u = 1 / 2 ^ 53"
  have a: "0 \<le> a" by (simp add: a_def)
  have q: "0 < q" using assms(2) by (simp add: q_def)
  have u: "0 \<le> u" "u \<le> 1" by (simp_all add: u_def)
  from round_double_error [OF q] have c: "\<bar>c - q\<bar> \<le> q * u" by (simp add: c_def u_def)
  have "q * u < q * 1" using q by (simp add: u_def)
  with c have cpos: "0 < c" by linarith
  have s_def': "s = round_double (a * c)" by (simp add: s_def a_def c_def q_def)
  have s: "\<bar>s - a * c\<bar> \<le> a * c * u"
  proof (cases "a = 0")
    case True
    then show ?thesis by (simp add: s_def' round_double_def)
  next
    case False
    with a cpos have "0 < a * c" by simp
    from round_double_error [OF this] show ?thesis by (simp add: s_def' u_def)
  qed
  from two_step_error [OF a less_imp_le [OF q] u c s]
  have e: "\<bar>s - a * q\<bar> \<le> a * q * (4 * u)" .
  have four: "4 * u = 1 / 2 ^ 51" by (simp add: u_def)
  from e show "\<bar>s - of_nat small * (1536 / of_nat large)\<bar> \<le> of_nat small * (1536 / of_nat large) / 2 ^ 51"
    unfolding four by (simp add: a_def q_def)
  have "1537 \<le> large" using assms(2) by simp
  then have "(1537 :: rat) \<le> of_nat large" by (metis of_nat_le_iff of_nat_numeral)
  then have "q \<le> 1536 / 1537" using assms(2) by (simp add: q_def field_simps)
  moreover have "0 \<le> 1 + 4 * u" using u by simp
  ultimately have "q * (1 + 4 * u) \<le> 1536 / 1537 * (1 + 4 * u)" by (rule mult_right_mono)
  also have "\<dots> \<le> 1" by (simp add: u_def)
  finally have "a * (q * (1 + 4 * u)) \<le> a * 1" using a by (rule mult_left_mono)
  moreover from e have "s \<le> a * q + a * q * (4 * u)" by linarith
  ultimately show "s \<le> of_nat small" by (simp add: a_def algebra_simps)
  have "0 \<le> a * q" using a q by simp
  moreover have "4 * u \<le> 1" by (simp add: u_def)
  ultimately have "a * q * (4 * u) \<le> a * q * 1" by (rule mult_left_mono [rotated])
  with e show "0 \<le> s" by linarith
qed

lemma double_1932: "double (snd (scaled_dimensions 1932 1288)) = 9007199254740991 / 8796093022208"
proof -
  have d: "scaled_dimensions 1932 1288 = (Num 1536, Times (Num 1288) (Over (Num 1536) (Num 1932)))"
    by (simp add: scaled_dimensions_def MAX_IMAGE_DIMENSION_def)
  show ?thesis
    unfolding d snd_conv double.simps of_nat_numeral factor_1932 height_1932 ..
qed

text \<open>
  Claim C5, as amended. For an image with sides below \<open>2 ^ 32\<close>: when both sides are at
  most 1536 the size is unchanged. Otherwise the larger side becomes exactly 1536 and the
  smaller side becomes \<open>smaller * (1536 / larger)\<close> as the engine computes it, each of the
  two operations rounded to double precision. That value is not negative, is at most the
  smaller side (nothing is scaled up), and differs from the exactly scaled side
  \<open>smaller * 1536 / larger\<close> by at most the fraction \<open>1 / 2 ^ 51\<close> of it: the ratio of the
  sides is kept up to the rounding, not exactly.
\<close>

theorem scaled_dimensions_double:
  assumes "w < 2 ^ 32" and "h < 2 ^ 32"
  shows "(w \<le> 1536 \<and> h \<le> 1536 \<longrightarrow>
            scaled_dimensions w h = (Num w, Num h)
          \<and> double (fst (scaled_dimensions w h)) = of_nat w
          \<and> double (snd (scaled_dimensions w h)) = of_nat h)
       \<and> (h < w \<and> 1536 < w \<longrightarrow>
            double (fst (scaled_dimensions w h)) = 1536
          \<and> double (snd (scaled_dimensions w h)) =
              round_double (of_nat h * round_double (1536 / of_nat w))
          \<and> 0 \<le> double (snd (scaled_dimensions w h))
          \<and> double (snd (scaled_dimensions w h)) \<le> of_nat h
          \<and> \<bar>double (snd (scaled_dimensions w h)) - of_nat h * (1536 / of_nat w)\<bar>
              \<le> of_nat h * (1536 / of_nat w) / 2 ^ 51)
       \<and> (w \<le> h \<and> 1536 < h \<longrightarrow>
            double (snd (scaled_dimensions w h)) = 1536
          \<and> double (fst (scaled_dimensions w h)) =
              round_double (of_nat w * round_double (1536 / of_nat h))
          \<and> 0 \<le> double (fst (scaled_dimensions w h))
          \<and> double (fst (scaled_dimensions w h)) \<le> of_nat w
          \<and> \<bar>double (fst (scaled_dimensions w h)) - of_nat w * (1536 / of_nat h)\<bar>
              \<le> of_nat w * (1536 / of_nat h) / 2 ^ 51)"
proof (intro conjI impI)
  assume "w \<le> 1536 \<and> h \<le> 1536"
  then show "scaled_dimensions w h = (Num w, Num h)"
    and "double (fst (scaled_dimensions w h)) = of_nat w"
    and "double (snd (scaled_dimensions w h)) = of_nat h"
    by (simp_all add: scaled_dimensions_def MAX_IMAGE_DIMENSION_def)
next
  assume a: "h < w \<and> 1536 < w"
  then have d: "scaled_dimensions w h = (Num 1536, Times (Num h) (Over (Num 1536) (Num w)))"
    by (simp add: scaled_dimensions_def MAX_IMAGE_DIMENSION_def)
  from a have le: "h \<le> w" and big: "1536 < w" by simp_all
  show "double (fst (scaled_dimensions w h)) = 1536" by (simp add: d)
  show "double (snd (scaled_dimensions w h)) = round_double (of_nat h * round_double (1536 / of_nat w))"
    by (simp add: d)
  show "0 \<le> double (snd (scaled_dimensions w h))"
    using scaled_side(3) [OF le big] by (simp add: d)
  show "double (snd (scaled_dimensions w h)) \<le> of_nat h"
    using scaled_side(2) [OF le big] by (simp add: d)
  show "\<bar>double (snd (scaled_dimensions w h)) - of_nat h * (1536 / of_nat w)\<bar>
              \<le> of_nat h * (1536 / of_nat w) / 2 ^ 51"
    using scaled_side(1) [OF le big] by (simp add: d)
next
  assume a: "w \<le> h \<and> 1536 < h"
  then have d: "scaled_dimensions w h = (Times (Num w) (Over (Num 1536) (Num h)), Num 1536)"
    by (simp add: scaled_dimensions_def MAX_IMAGE_DIMENSION_def)
  from a have le: "w \<le> h" and big: "1536 < h" by simp_all
  show "double (snd (scaled_dimensions w h)) = 1536" by (simp add: d)
  show "double (fst (scaled_dimensions w h)) = round_double (of_nat w * round_double (1536 / of_nat h))"
    by (simp add: d)
  show "0 \<le> double (fst (scaled_dimensions w h))"
    using scaled_side(3) [OF le big] by (simp add: d)
  show "double (fst (scaled_dimensions w h)) \<le> of_nat w"
    using scaled_side(2) [OF le big] by (simp add: d)
  show "\<bar>double (fst (scaled_dimensions w h)) - of_nat w * (1536 / of_nat h)\<bar>
              \<le> of_nat w * (1536 / of_nat h) / 2 ^ 51"
    using scaled_side(1) [OF le big] by (simp add: d)
qed

theorem scaled_dimensions_double_witness:
  "(1932 :: nat) < 2 ^ 32 \<and> (1288 :: nat) < 2 ^ 32 \<and> (1288 :: nat) < 1932 \<and> (1536 :: nat) < 1932
   \<and> double (fst (scaled_dimensions 1932 1288)) = 1536
   \<and> 0 \<le> double (snd (scaled_dimensions 1932 1288))
   \<and> double (snd (scaled_dimensions 1932 1288)) \<le> of_nat 1288
   \<and> \<bar>double (snd (scaled_dimensions 1932 1288)) - of_nat 1288 * (1536 / of_nat 1932)\<bar>
       \<le> of_nat 1288 * (1536 / of_nat 1932) / 2 ^ 51"
proof -
  have b: "(1932 :: nat) < 2 ^ 32" "(1288 :: nat) < 2 ^ 32" by simp_all
  have g: "(1288 :: nat) < 1932 \<and> (1536 :: nat) < 1932" by simp
  from scaled_dimensions_double [OF b] b g show ?thesis by blast
qed

text \<open>
  Claim C5 as stated fails: for an image of 1932 by 1288 the width becomes 1536 and the
  height becomes the largest double below 1024, not 1288 scaled by the factor 1536 / 1932,
  which is 1024. The ratio of the sides is not kept, and a canvas that takes the integer
  part of its size gets the height 1023.
\<close>

theorem scaled_dimensions_ratio_counterexample:
  "double (fst (scaled_dimensions 1932 1288)) = 1536
   \<and> double (snd (scaled_dimensions 1932 1288)) = 9007199254740991 / 8796093022208
   \<and> double (snd (scaled_dimensions 1932 1288)) \<noteq> 1288 * (1536 / 1932)
   \<and> double (fst (scaled_dimensions 1932 1288)) * 1288
       \<noteq> double (snd (scaled_dimensions 1932 1288)) * 1932
   \<and> \<lfloor>double (snd (scaled_dimensions 1932 1288))\<rfloor> = 1023"
proof -
  have f: "double (fst (scaled_dimensions 1932 1288)) = 1536"
    by (simp add: scaled_dimensions_def MAX_IMAGE_DIMENSION_def)
  have fl: "\<lfloor>9007199254740991 / 8796093022208 :: rat\<rfloor> = 1023" by (rule floor_unique) simp_all
  show ?thesis unfolding f double_1932 using fl by simp
qed

section \<open>File preprocessing\<close>

lemma indexOf_first: "c \<notin> set xs \<Longrightarrow> indexOf (xs @ c # ys) c = Some (length xs)"
  by (induction xs) auto

lemma substring_head: "a \<le> length h \<Longrightarrow> substring (h @ rest) a (length h) = drop a h"
  by (simp add: substring_def Let_def min_def max_def)

lemma substring_from_tail: "substring_from (h @ c # rest) (Suc (length h)) = rest"
  by (simp add: substring_from_def)

lemma parseDataUrl_wellformed:
  assumes "CHR '','' \<notin> set mime" and "CHR '';'' \<notin> set mime"
  shows "parseDataUrl (''data:'' @ mime @ '';base64,'' @ payload) = Inr (mime, payload)"
proof -
  define h where "h = ''data:'' @ mime @ '';base64''"
  have url: "''data:'' @ mime @ '';base64,'' @ payload = h @ CHR '','' # payload"
    by (simp add: h_def)
  from assms(1) have "CHR '','' \<notin> set h" by (simp add: h_def)
  then have idx: "indexOf (h @ CHR '','' # payload) (CHR '','') = Some (length h)"
    by (rule indexOf_first)
  have "5 \<le> length h" by (simp add: h_def)
  then have "substring (h @ CHR '','' # payload) 5 (length h) = drop 5 h"
    by (rule substring_head)
  also have "drop 5 h = mime @ '';base64''" by (simp add: h_def)
  finally have sub: "substring (h @ CHR '','' # payload) 5 (length h) = mime @ '';base64''" .
  have hd: "split_head (mime @ '';base64'') (CHR '';'') = mime"
    using assms(2) by (simp add: split_head_def takeWhile_append)
  show ?thesis
    unfolding url parseDataUrl_def by (simp add: idx sub hd substring_from_tail)
qed

lemma earliest_rejection_None:
  "earliest_rejection t i rs = None \<longleftrightarrow> (\<forall>r\<in>set rs. \<exists>v. r = Inr v)"
  by (induction t i rs rule: earliest_rejection.induct) (auto split: option.splits)

lemma earliest_rejection_Some:
  "earliest_rejection t i rs = Some (t', e) \<Longrightarrow> Inl e \<in> set rs"
  by (induction t i rs arbitrary: t' e rule: earliest_rejection.induct)
     (auto split: option.splits if_splits)

lemma fulfilled_map_Inr: "fulfilled (map Inr vs) = vs"
  by (induction vs) simp_all

lemma map_Inr_fulfilled: "\<forall>r\<in>set rs. \<exists>v. r = Inr v \<Longrightarrow> map Inr (fulfilled rs) = rs"
  by (induction rs rule: fulfilled.induct) auto

lemma Promise_all_Inr_iff: "Promise_all t rs = Inr vs \<longleftrightarrow> rs = map Inr vs"
proof
  assume "Promise_all t rs = Inr vs"
  then have "earliest_rejection t 0 rs = None" and vs: "vs = fulfilled rs"
    by (auto simp: Promise_all_def split: option.splits)
  then have "\<forall>r\<in>set rs. \<exists>v. r = Inr v" by (simp add: earliest_rejection_None)
  with vs show "rs = map Inr vs" by (simp add: map_Inr_fulfilled)
next
  assume rs: "rs = map Inr vs"
  then have "earliest_rejection t 0 rs = None" by (auto simp: earliest_rejection_None)
  with rs show "Promise_all t rs = Inr vs" by (simp add: Promise_all_def fulfilled_map_Inr)
qed

lemma Promise_all_Inl: "Promise_all t rs = Inl e \<Longrightarrow> Inl e \<in> set rs"
  by (auto simp: Promise_all_def split: option.splits dest: earliest_rejection_Some)

lemma Promise_all_rejects: "Inl e \<in> set rs \<Longrightarrow> \<exists>e'. Promise_all t rs = Inl e'"
proof -
  assume "Inl e \<in> set rs"
  then have "earliest_rejection t 0 rs \<noteq> None" by (auto simp: earliest_rejection_None)
  then show ?thesis by (auto simp: Promise_all_def split: option.splits)
qed

lemma processFile_Inl: "processFile env f = Inl e \<Longrightarrow> e = could_not_process (name f)"
  by (auto simp: processFile_def split: sum.splits)

lemma processFile_text:
  "ftype f = ''text/plain'' \<Longrightarrow> fileText env f = Some content \<Longrightarrow>
   processFile env f = Inr (text_part (attached_text (name f) content))"
  by (simp add: processFile_def processFile_try_def readFileAsText_def)

lemma processFile_image:
  "ftype f \<noteq> ''text/plain'' \<Longrightarrow> startsWith (ftype f) ''image/'' \<Longrightarrow> imageSize env f = Some (w, h) \<Longrightarrow>
   canvas2d env \<Longrightarrow> parseDataUrl (canvasJpeg env f (scaled_dimensions w h)) = Inr md \<Longrightarrow>
   processFile env f = Inr (inline_part md)"
  by (simp add: processFile_def processFile_try_def compressImage_def)

lemma processFile_other:
  "ftype f \<noteq> ''text/plain'' \<Longrightarrow> \<not> startsWith (ftype f) ''image/'' \<Longrightarrow>
   fileDataURL env f = Some url \<Longrightarrow> parseDataUrl url = Inr md \<Longrightarrow>
   processFile env f = Inr (inline_part md)"
  by (simp add: processFile_def processFile_try_def readFileAsBase64_def)

lemma processFilesForGemini_failure:
  assumes "f \<in> set fs" and "processFile env f = Inl e"
  shows "\<exists>g\<in>set fs. processFilesForGemini env fs = Inl (could_not_process (name g))
           \<and> processFile env g = Inl (could_not_process (name g))"
proof -
  from assms have "Inl e \<in> set (map (processFile env) fs)" by force
  from Promise_all_rejects [OF this] obtain e' where
    e': "processFilesForGemini env fs = Inl e'" by (auto simp: processFilesForGemini_def)
  then have "Inl e' \<in> set (map (processFile env) fs)"
    by (auto simp: processFilesForGemini_def dest: Promise_all_Inl)
  then obtain g where g: "g \<in> set fs" "processFile env g = Inl e'" by auto
  from processFile_Inl [OF g(2)] g e' show ?thesis by auto
qed

lemma indexOf_None: "c \<notin> set s \<Longrightarrow> indexOf s c = None"
  by (induction s) auto

lemma parseDataUrl_no_comma: "CHR '','' \<notin> set url \<Longrightarrow> \<exists>e. parseDataUrl url = Inl e"
  by (simp add: parseDataUrl_def indexOf_None)

lemma processFile_fails:
  "processFile_try env f = Inl e \<Longrightarrow>
   processFile env f =
     Inl (Thrown (Some (''Could not process '' @ name f @ ''. Please try a different file.'')) None)"
  by (simp add: processFile_def could_not_process_def Error_def)

text \<open>
  Claim C4. \<open>processFilesForGemini\<close> is fulfilled with the list \<open>ps\<close> exactly when the files,
  taken in order, are processed to the parts of \<open>ps\<close>: one part per file, in the order of
  the files. When processing some file fails, the whole call is rejected with the error
  \<open>Could not process <name>. Please try a different file.\<close> of a file that failed, and
  that is the only error a file can fail with. A file of type \<open>text/plain\<close> that can be read
  becomes a \<open>text_content\<close> part with the text \<open>[Attached File: <name>]\<close>, a line break, the
  file text, a line break and \<open>---\<close>. Any other file whose type starts with \<open>image/\<close> becomes
  an \<open>inline_data\<close> part with the MIME type and the base64 data of the data URL that the
  canvas exports for it; every remaining file becomes an \<open>inline_data\<close> part with the MIME
  type and the base64 data of the data URL of its bytes. A file fails when it cannot be
  read, when its image does not load or no canvas context exists, or when the data URL
  has no comma.
\<close>

theorem processFilesForGemini_dispatch:
  "(processFilesForGemini env fs = Inr ps \<longleftrightarrow> map (processFile env) fs = map Inr ps)
   \<and> ((\<exists>g\<in>set fs. \<exists>e. processFile env g = Inl e) \<longrightarrow>
        (\<exists>g\<in>set fs.
           processFilesForGemini env fs =
             Inl (Thrown (Some (''Could not process '' @ name g @ ''. Please try a different file.'')) None)
           \<and> processFile env g =
             Inl (Thrown (Some (''Could not process '' @ name g @ ''. Please try a different file.'')) None)))
   \<and> (ftype f = ''text/plain'' \<and> fileText env f = Some content \<longrightarrow>
        processFile env f =
          Inr \<lparr>ptype = text_content, mimeType = None, data = None,
               ptext = Some (''[Attached File: '' @ name f @ '']'' @ [CHR 0x0A] @ content
                             @ [CHR 0x0A] @ ''---'')\<rparr>)
   \<and> (ftype f \<noteq> ''text/plain'' \<and> startsWith (ftype f) ''image/'' \<and> imageSize env f = Some (w, h)
        \<and> canvas2d env
        \<and> canvasJpeg env f (scaled_dimensions w h) = ''data:'' @ mime @ '';base64,'' @ payload
        \<and> CHR '','' \<notin> set mime \<and> CHR '';'' \<notin> set mime \<longrightarrow>
        processFile env f =
          Inr \<lparr>ptype = inline_data, mimeType = Some mime, data = Some payload, ptext = None\<rparr>)
   \<and> (ftype f \<noteq> ''text/plain'' \<and> \<not> startsWith (ftype f) ''image/''
        \<and> fileDataURL env f = Some (''data:'' @ mime @ '';base64,'' @ payload)
        \<and> CHR '','' \<notin> set mime \<and> CHR '';'' \<notin> set mime \<longrightarrow>
        processFile env f =
          Inr \<lparr>ptype = inline_data, mimeType = Some mime, data = Some payload, ptext = None\<rparr>)
   \<and> ((ftype f = ''text/plain'' \<and> fileText env f = None)
        \<or> (ftype f \<noteq> ''text/plain'' \<and> startsWith (ftype f) ''image/''
            \<and> (imageSize env f = None \<or> \<not> canvas2d env
                \<or> (\<exists>w h. imageSize env f = Some (w, h)
                      \<and> CHR '','' \<notin> set (canvasJpeg env f (scaled_dimensions w h)))))
        \<or> (ftype f \<noteq> ''text/plain'' \<and> \<not> startsWith (ftype f) ''image/''
            \<and> (fileDataURL env f = None
                \<or> (\<exists>url. fileDataURL env f = Some url \<and> CHR '','' \<notin> set url))) \<longrightarrow>
        processFile env f =
          Inl (Thrown (Some (''Could not process '' @ name f @ ''. Please try a different file.'')) None))
   \<and> (\<forall>e. processFile env f = Inl e \<longrightarrow>
          e = Thrown (Some (''Could not process '' @ name f @ ''. Please try a different file.'')) None)"
proof (intro conjI impI allI)
  show "processFilesForGemini env fs = Inr ps \<longleftrightarrow> map (processFile env) fs = map Inr ps"
    by (simp add: processFilesForGemini_def Promise_all_Inr_iff)
next
  assume "\<exists>g\<in>set fs. \<exists>e. processFile env g = Inl e"
  then show "\<exists>g\<in>set fs.
           processFilesForGemini env fs =
             Inl (Thrown (Some (''Could not process '' @ name g @ ''. Please try a different file.'')) None)
           \<and> processFile env g =
             Inl (Thrown (Some (''Could not process '' @ name g @ ''. Please try a different file.'')) None)"
    using processFilesForGemini_failure [of _ fs env]
    by (simp add: could_not_process_def Error_def) blast
next
  assume "ftype f = ''text/plain'' \<and> fileText env f = Some content"
  then show "processFile env f =
          Inr \<lparr>ptype = text_content, mimeType = None, data = None,
               ptext = Some (''[Attached File: '' @ name f @ '']'' @ [CHR 0x0A] @ content
                             @ [CHR 0x0A] @ ''---'')\<rparr>"
    using processFile_text [of f env content] by (simp add: attached_text_def text_part_def)
next
  assume a: "ftype f \<noteq> ''text/plain'' \<and> startsWith (ftype f) ''image/'' \<and> imageSize env f = Some (w, h)
        \<and> canvas2d env
        \<and> canvasJpeg env f (scaled_dimensions w h) = ''data:'' @ mime @ '';base64,'' @ payload
        \<and> CHR '','' \<notin> set mime \<and> CHR '';'' \<notin> set mime"
  then have "parseDataUrl (canvasJpeg env f (scaled_dimensions w h)) = Inr (mime, payload)"
    using parseDataUrl_wellformed [of mime payload] by simp
  with a have "processFile env f = Inr (inline_part (mime, payload))"
    using processFile_image [of f env w h "(mime, payload)"] by blast
  then show "processFile env f =
          Inr \<lparr>ptype = inline_data, mimeType = Some mime, data = Some payload, ptext = None\<rparr>"
    by (simp add: inline_part_def)
next
  assume a: "ftype f \<noteq> ''text/plain'' \<and> \<not> startsWith (ftype f) ''image/''
        \<and> fileDataURL env f = Some (''data:'' @ mime @ '';base64,'' @ payload)
        \<and> CHR '','' \<notin> set mime \<and> CHR '';'' \<notin> set mime"
  then have "parseDataUrl (''data:'' @ mime @ '';base64,'' @ payload) = Inr (mime, payload)"
    using parseDataUrl_wellformed [of mime payload] by simp
  with a have "processFile env f = Inr (inline_part (mime, payload))"
    using processFile_other [of f env _ "(mime, payload)"] by blast
  then show "processFile env f =
          Inr \<lparr>ptype = inline_data, mimeType = Some mime, data = Some payload, ptext = None\<rparr>"
    by (simp add: inline_part_def)
next
  assume a: "(ftype f = ''text/plain'' \<and> fileText env f = None)
        \<or> (ftype f \<noteq> ''text/plain'' \<and> startsWith (ftype f) ''image/''
            \<and> (imageSize env f = None \<or> \<not> canvas2d env
                \<or> (\<exists>w h. imageSize env f = Some (w, h)
                      \<and> CHR '','' \<notin> set (canvasJpeg env f (scaled_dimensions w h)))))
        \<or> (ftype f \<noteq> ''text/plain'' \<and> \<not> startsWith (ftype f) ''image/''
            \<and> (fileDataURL env f = None
                \<or> (\<exists>url. fileDataURL env f = Some url \<and> CHR '','' \<notin> set url)))"
  have "\<exists>e. processFile_try env f = Inl e"
    using a parseDataUrl_no_comma
    by (fastforce simp: processFile_try_def readFileAsText_def readFileAsBase64_def compressImage_def
          split: option.splits sum.splits)
  then show "processFile env f =
          Inl (Thrown (Some (''Could not process '' @ name f @ ''. Please try a different file.'')) None)"
    using processFile_fails by blast
next
  fix e assume "processFile env f = Inl e"
  then show "e = Thrown (Some (''Could not process '' @ name f @ ''. Please try a different file.'')) None"
    using processFile_Inl [of env f e] by (simp add: could_not_process_def Error_def)
qed

lemma example_txt:
  "ftype sample_txt = ''text/plain'' \<and> fileText (example_world key answer) sample_txt = Some ''Rent is due.''"
  by (simp add: sample_txt_def example_world_def)

lemma example_img:
  "ftype sample_img \<noteq> ''text/plain'' \<and> startsWith (ftype sample_img) ''image/''
   \<and> imageSize (example_world key answer) sample_img = Some (3000, 2000)
   \<and> canvas2d (example_world key answer)
   \<and> canvasJpeg (example_world key answer) sample_img (scaled_dimensions 3000 2000)
       = ''data:'' @ ''image/jpeg'' @ '';base64,'' @ ''/9j/4AAQ''
   \<and> CHR '','' \<notin> set ''image/jpeg'' \<and> CHR '';'' \<notin> set ''image/jpeg''"
  by (simp add: sample_img_def example_world_def startsWith_def)

lemma example_pdf:
  "ftype sample_pdf \<noteq> ''text/plain'' \<and> \<not> startsWith (ftype sample_pdf) ''image/''
   \<and> fileDataURL (example_world key answer) sample_pdf
       = Some (''data:'' @ ''application/pdf'' @ '';base64,'' @ ''JVBERi0='')
   \<and> CHR '','' \<notin> set ''application/pdf'' \<and> CHR '';'' \<notin> set ''application/pdf''"
  by (simp add: sample_pdf_def example_world_def startsWith_def)

lemma unreadable_pdf:
  "ftype sample_pdf \<noteq> ''text/plain'' \<and> \<not> startsWith (ftype sample_pdf) ''image/''
   \<and> fileDataURL unreadable_world sample_pdf
       = Some (''data:'' @ ''application/pdf'' @ '';base64,'' @ ''JVBERi0='')
   \<and> CHR '','' \<notin> set ''application/pdf'' \<and> CHR '';'' \<notin> set ''application/pdf''"
  by (simp add: sample_pdf_def unreadable_world_def example_world_def startsWith_def)

lemma unreadable_txt:
  "ftype sample_txt = ''text/plain'' \<and> fileText unreadable_world sample_txt = None"
  by (simp add: unreadable_world_def example_world_def sample_txt_def)

theorem processFilesForGemini_dispatch_witness:
  "processFilesForGemini (example_world (Some ''k'') ''{}'') [sample_txt, sample_img, sample_pdf] =
     Inr [\<lparr>ptype = text_content, mimeType = None, data = None,
           ptext = Some (''[Attached File: lease.txt]'' @ [CHR 0x0A] @ ''Rent is due.''
                         @ [CHR 0x0A] @ ''---'')\<rparr>,
          \<lparr>ptype = inline_data, mimeType = Some ''image/jpeg'', data = Some ''/9j/4AAQ'',
           ptext = None\<rparr>,
          \<lparr>ptype = inline_data, mimeType = Some ''application/pdf'', data = Some ''JVBERi0='',
           ptext = None\<rparr>]
   \<and> processFilesForGemini unreadable_world [sample_pdf, sample_txt] =
       Inl (Thrown (Some ''Could not process lease.txt. Please try a different file.'') None)"
proof -
  let ?W = "example_world (Some ''k'') ''{}''"
  let ?t = "\<lparr>ptype = text_content, mimeType = None, data = None,
           ptext = Some (''[Attached File: lease.txt]'' @ [CHR 0x0A] @ ''Rent is due.''
                         @ [CHR 0x0A] @ ''---'')\<rparr>"
  let ?i = "\<lparr>ptype = inline_data, mimeType = Some ''image/jpeg'', data = Some ''/9j/4AAQ'',
           ptext = None\<rparr>"
  let ?p = "\<lparr>ptype = inline_data, mimeType = Some ''application/pdf'', data = Some ''JVBERi0='',
           ptext = None\<rparr>"
  have t: "processFile ?W sample_txt = Inr ?t"
    using processFilesForGemini_dispatch
            [where env = ?W and f = sample_txt and content = "''Rent is due.''",
             THEN conjunct2, THEN conjunct2, THEN conjunct1]
      example_txt [of "Some ''k''" "''{}''"]
    by (simp add: sample_txt_def)
  have i: "processFile ?W sample_img = Inr ?i"
    using processFilesForGemini_dispatch
            [where env = ?W and f = sample_img and w = 3000 and h = 2000
               and mime = "''image/jpeg''" and payload = "''/9j/4AAQ''",
             THEN conjunct2, THEN conjunct2, THEN conjunct2, THEN conjunct1]
      example_img [of "Some ''k''" "''{}''"]
    by blast
  have p: "processFile ?W sample_pdf = Inr ?p"
    using processFilesForGemini_dispatch
            [where env = ?W and f = sample_pdf
               and mime = "''application/pdf''" and payload = "''JVBERi0=''",
             THEN conjunct2, THEN conjunct2, THEN conjunct2, THEN conjunct2, THEN conjunct1]
      example_pdf [of "Some ''k''" "''{}''"]
    by blast
  have ok: "processFilesForGemini ?W [sample_txt, sample_img, sample_pdf] = Inr [?t, ?i, ?p]"
    using processFilesForGemini_dispatch
            [where env = ?W and fs = "[sample_txt, sample_img, sample_pdf]" and ps = "[?t, ?i, ?p]",
             THEN conjunct1] t i p
    by simp
  have up: "processFile unreadable_world sample_pdf = Inr ?p"
    using processFilesForGemini_dispatch
            [where env = unreadable_world and f = sample_pdf
               and mime = "''application/pdf''" and payload = "''JVBERi0=''",
             THEN conjunct2, THEN conjunct2, THEN conjunct2, THEN conjunct2, THEN conjunct1]
      unreadable_pdf
    by blast
  have ut: "processFile unreadable_world sample_txt =
      Inl (Thrown (Some (''Could not process '' @ name sample_txt @ ''. Please try a different file.'')) None)"
    using processFilesForGemini_dispatch
            [where env = unreadable_world and f = sample_txt,
             THEN conjunct2, THEN conjunct2, THEN conjunct2, THEN conjunct2, THEN conjunct2,
             THEN conjunct1]
      unreadable_txt
    by blast
  then have "\<exists>g\<in>set [sample_pdf, sample_txt]. \<exists>e. processFile unreadable_world g = Inl e"
    by simp
  with processFilesForGemini_dispatch
         [where env = unreadable_world and fs = "[sample_pdf, sample_txt]",
          THEN conjunct2, THEN conjunct1]
  obtain g where g: "g = sample_pdf \<or> g = sample_txt"
    "processFilesForGemini unreadable_world [sample_pdf, sample_txt] =
       Inl (Thrown (Some (''Could not process '' @ name g @ ''. Please try a different file.'')) None)"
    "processFile unreadable_world g =
       Inl (Thrown (Some (''Could not process '' @ name g @ ''. Please try a different file.'')) None)"
    by auto
  from g(1,3) up have "g = sample_txt" by auto
  with g(2) have "processFilesForGemini unreadable_world [sample_pdf, sample_txt] =
       Inl (Thrown (Some ''Could not process lease.txt. Please try a different file.'') None)"
    by (simp add: sample_txt_def)
  with ok show ?thesis by simp
qed

section \<open>The handlers of the page\<close>

lemma decimal_20: "decimal 20 = ''20''"
  by code_simp

lemma handleFiles_loop_valid:
  "fst (handleFiles_loop fs (v, e, p)) = v @ filter (\<lambda>f. fsize f \<le> MAX_FILE_SIZE_BYTES \<and> (isImage f \<or> isPdf f \<or> isTxt f)) fs"
  by (induction fs arbitrary: v e p) auto

lemma handleFiles_loop_errors:
  "fst (snd (handleFiles_loop fs (v, e, p))) =
     e @ map (\<lambda>f. if fsize f > MAX_FILE_SIZE_BYTES then exceeds_message f else unsupported_message f)
           (filter (\<lambda>f. \<not> (fsize f \<le> MAX_FILE_SIZE_BYTES \<and> (isImage f \<or> isPdf f \<or> isTxt f))) fs)"
  by (induction fs arbitrary: v e p) auto

text \<open>
  Claim C9. After \<open>handleFiles\<close> the selected files are the files selected before followed
  by those submitted files, in the order of submission, whose size is at most 20 MB
  (20 * 1024 * 1024 bytes) and whose type starts with \<open>image/\<close> or is \<open>application/pdf\<close> or
  \<open>text/plain\<close>. The validation errors are one message for each other submitted file, in
  the order of submission: \<open>"<name>" exceeds 20MB.\<close> when the file is too large and
  \<open>"<name>" is not supported.\<close> otherwise. The typed text and the language are unchanged.
\<close>

theorem handleFiles_admits_supported:
  "files (fst (handleFiles fs (i, c))) =
     files i @ filter (\<lambda>f. fsize f \<le> 20 * 1024 * 1024
                        \<and> (startsWith (ftype f) ''image/'' \<or> ftype f = ''application/pdf''
                            \<or> ftype f = ''text/plain'')) fs
   \<and> validationErrors (snd (handleFiles fs (i, c))) =
       map (\<lambda>f. if fsize f > 20 * 1024 * 1024
                 then [CHR 0x22] @ name f @ [CHR 0x22] @ '' exceeds 20MB.''
                 else [CHR 0x22] @ name f @ [CHR 0x22] @ '' is not supported.'')
           (filter (\<lambda>f. \<not> (fsize f \<le> 20 * 1024 * 1024
                        \<and> (startsWith (ftype f) ''image/'' \<or> ftype f = ''application/pdf''
                            \<or> ftype f = ''text/plain''))) fs)
   \<and> text (fst (handleFiles fs (i, c))) = text i
   \<and> language (fst (handleFiles fs (i, c))) = language i"
proof -
  obtain v e p where loop: "handleFiles_loop fs ([], [], uploadProgress c) = (v, e, p)"
    by (cases "handleFiles_loop fs ([], [], uploadProgress c)") auto
  from handleFiles_loop_valid [of fs "[]" "[]" "uploadProgress c"] loop
  have v: "v = filter (\<lambda>f. fsize f \<le> MAX_FILE_SIZE_BYTES \<and> (isImage f \<or> isPdf f \<or> isTxt f)) fs"
    by simp
  from handleFiles_loop_errors [of fs "[]" "[]" "uploadProgress c"] loop
  have e: "e = map (\<lambda>f. if fsize f > MAX_FILE_SIZE_BYTES then exceeds_message f else unsupported_message f)
           (filter (\<lambda>f. \<not> (fsize f \<le> MAX_FILE_SIZE_BYTES \<and> (isImage f \<or> isPdf f \<or> isTxt f))) fs)"
    by simp
  have limit: "MAX_FILE_SIZE_BYTES = 20 * 1024 * 1024"
    by (simp add: MAX_FILE_SIZE_BYTES_def MAX_FILE_SIZE_MB_def)
  have msgs: "\<And>f. exceeds_message f = [CHR 0x22] @ name f @ [CHR 0x22] @ '' exceeds 20MB.''"
    "\<And>f. unsupported_message f = [CHR 0x22] @ name f @ [CHR 0x22] @ '' is not supported.''"
    by (simp_all add: exceeds_message_def unsupported_message_def quoted_def MAX_FILE_SIZE_MB_def
          decimal_20)
  have f1: "files (fst (handleFiles fs (i, c))) = files i @ v"
    and f2: "validationErrors (snd (handleFiles fs (i, c))) = e"
    and f3: "text (fst (handleFiles fs (i, c))) = text i"
    and f4: "language (fst (handleFiles fs (i, c))) = language i"
    using loop by (simp_all add: handleFiles_def)
  show ?thesis
    unfolding f1 f2 f3 f4 v e limit msgs isImage_def isPdf_def isTxt_def by simp
qed

theorem handleFiles_admits_supported_witness:
  "files (fst (handleFiles [sample_big, sample_pdf, sample_exe, sample_img]
                (\<lparr>text = ''hello'', files = [sample_txt], language = ''English''\<rparr>,
                 inputCard (initial False)))) = [sample_txt, sample_pdf, sample_img]
   \<and> validationErrors (snd (handleFiles [sample_big, sample_pdf, sample_exe, sample_img]
                (\<lparr>text = ''hello'', files = [sample_txt], language = ''English''\<rparr>,
                 inputCard (initial False)))) =
       [[CHR 0x22] @ ''big.pdf'' @ [CHR 0x22] @ '' exceeds 20MB.'',
        [CHR 0x22] @ ''setup.exe'' @ [CHR 0x22] @ '' is not supported.'']"
  using handleFiles_admits_supported
          [of "[sample_big, sample_pdf, sample_exe, sample_img]"
              "\<lparr>text = ''hello'', files = [sample_txt], language = ''English''\<rparr>"
              "inputCard (initial False)"]
  by (simp add: sample_big_def sample_pdf_def sample_exe_def sample_img_def startsWith_def)

text \<open>
  Claim C10. \<open>handleReset\<close> sets the status to \<open>IDLE\<close>, the result to null, and the typed text
  and the files to empty; the selected language and the dark-mode setting are unchanged, as
  are the error message and the privacy dialog.
\<close>

theorem handleReset_frame:
  "status (handleReset st) = IDLE
   \<and> result (handleReset st) = None
   \<and> text (inputState (handleReset st)) = []
   \<and> files (inputState (handleReset st)) = []
   \<and> language (inputState (handleReset st)) = language (inputState st)
   \<and> isDarkMode (handleReset st) = isDarkMode st
   \<and> errorMsg (handleReset st) = errorMsg st
   \<and> showPrivacy (handleReset st) = showPrivacy st"
  by (simp add: handleReset_def)

theorem handleReset_frame_witness:
  "status (handleReset ((typed ''Rent is due.'')\<lparr>status := SUCCESS, isDarkMode := True\<rparr>)) = IDLE
   \<and> inputState (handleReset ((typed ''Rent is due.'')\<lparr>status := SUCCESS, isDarkMode := True\<rparr>)) =
       \<lparr>text = [], files = [], language = ''English''\<rparr>
   \<and> isDarkMode (handleReset ((typed ''Rent is due.'')\<lparr>status := SUCCESS, isDarkMode := True\<rparr>))"
  using handleReset_frame [of "(typed ''Rent is due.'')\<lparr>status := SUCCESS, isDarkMode := True\<rparr>"]
  by (simp add: typed_def initial_def handleReset_def)

text \<open>
  Claim C6. When the work awaited by \<open>handleSubmit\<close> is rejected with \<open>err\<close>, the call ends
  with the status \<open>ERROR\<close>, with the message of \<open>err\<close> as error message (the default message
  when \<open>err\<close> has no message or an empty one), with no result, and with the input state
  (text, files and language) as it was before the call. Neither stretch of \<open>handleSubmit\<close>
  writes the input state, whatever the state it runs in.
\<close>

theorem handleSubmit_failure:
  assumes "handleSubmit_outcome env st = Inl err"
  shows "status (handleSubmit env st) = ERROR
         \<and> errorMsg (handleSubmit env st) =
             (case message err of
                None \<Rightarrow> ''An unexpected error occurred while analyzing the document.''
              | Some m \<Rightarrow> if m = [] then ''An unexpected error occurred while analyzing the document.''
                          else m)
         \<and> result (handleSubmit env st) = None
         \<and> inputState (handleSubmit env st) = inputState st
         \<and> inputState (handleSubmit_begin st') = inputState st'
         \<and> inputState (handleSubmit_settle (Inl err) st') = inputState st'"
proof -
  have msg: "message_or_default err =
      (case message err of
         None \<Rightarrow> ''An unexpected error occurred while analyzing the document.''
       | Some m \<Rightarrow> if m = [] then ''An unexpected error occurred while analyzing the document.''
                   else m)"
    by (cases "message err") (simp_all add: message_or_default_def)
  have run: "handleSubmit env st = (handleSubmit_begin st)\<lparr>status := ERROR, errorMsg := message_or_default err\<rparr>"
    using assms by (simp add: handleSubmit_def handleSubmit_settle_def)
  show ?thesis
    unfolding run msg [symmetric]
    by (simp add: handleSubmit_begin_def handleSubmit_settle_def)
qed

theorem handleSubmit_failure_witness:
  "handleSubmit_outcome (example_world None ''{}'') (typed ''Rent is due.'') =
     Inl (Error ''System Error: API Key is missing. Please check configuration.'')
   \<and> status (handleSubmit (example_world None ''{}'') (typed ''Rent is due.'')) = ERROR
   \<and> errorMsg (handleSubmit (example_world None ''{}'') (typed ''Rent is due.'')) =
       ''System Error: API Key is missing. Please check configuration.''
   \<and> result (handleSubmit (example_world None ''{}'') (typed ''Rent is due.'')) = None
   \<and> inputState (handleSubmit (example_world None ''{}'') (typed ''Rent is due.'')) =
       \<lparr>text = ''Rent is due.'', files = [], language = ''English''\<rparr>"
proof -
  have out: "handleSubmit_outcome (example_world None ''{}'') (typed ''Rent is due.'') =
     Inl (Error ''System Error: API Key is missing. Please check configuration.'')"
    by (simp add: handleSubmit_outcome_def typed_def processFilesForGemini_def Promise_all_def
          analyzeDocument_def example_world_def)
  from handleSubmit_failure [OF out] out show ?thesis
    by (simp add: Error_def typed_def)
qed

section \<open>One request at a time\<close>

lemma with_input_frame:
  "status (app (with_input ic s)) = status (app s) \<and> outstanding (with_input ic s) = outstanding s"
  by (simp add: with_input_def)

lemma step_in_step: "step s s' \<Longrightarrow> in_step s \<Longrightarrow> in_step s'"
proof (induction rule: step.induct)
  case (submit s)
  then show ?case
    by (simp add: in_step_def submit_disabled_def isLoading_def handleSubmit_begin_def)
next
  case (settle s outcome)
  then show ?case
    by (cases outcome) (auto simp: in_step_def handleSubmit_settle_def split: if_splits)
next
  case (reset s)
  then show ?case by (simp add: in_step_def handleReset_def)
next
  case (add_files s fs)
  then show ?case by (simp add: in_step_def with_input_frame)
next
  case (remove_file s index)
  then show ?case by (simp add: in_step_def with_input_frame)
next
  case (change_language s lang)
  then show ?case by (simp add: in_step_def onLanguageChange_def)
next
  case (toggle_theme s)
  then show ?case by (simp add: in_step_def toggleTheme_def)
qed (simp_all add: in_step_def)

lemma reachable_in_step: "reachable s \<Longrightarrow> in_step s"
proof (induction rule: reachable.induct)
  case (start dark)
  show ?case by (simp add: in_step_def initial_def)
next
  case (next_step s s')
  from next_step.hyps(2) next_step.IH show ?case by (rule step_in_step)
qed

lemma step_starts_request:
  "step s s' \<Longrightarrow> outstanding s < outstanding s' \<Longrightarrow>
   \<not> submit_disabled (app s) (inputCard s) \<and> outstanding s' = Suc (outstanding s)"
  by (induction rule: step.induct) (simp_all add: with_input_def)

text \<open>
  Claim C7. In every reachable state of the page at most one call of \<open>handleSubmit\<close> is in
  flight, and one is in flight exactly when the status is \<open>PROCESSING\<close>. While the status is
  \<open>PROCESSING\<close> the submit button is disabled, and a step that puts a further call in flight
  starts from a state whose status is not \<open>PROCESSING\<close> and in which no call is in flight.
\<close>

theorem one_outstanding_request:
  assumes "reachable s"
  shows "outstanding s \<le> 1
         \<and> (outstanding s = 1 \<longleftrightarrow> status (app s) = PROCESSING)
         \<and> (status (app s) = PROCESSING \<longrightarrow> submit_disabled (app s) (inputCard s))
         \<and> (\<forall>s'. step s s' \<and> outstanding s < outstanding s' \<longrightarrow>
               status (app s) \<noteq> PROCESSING \<and> outstanding s = 0 \<and> outstanding s' = 1)"
proof -
  from assms have inv: "in_step s" by (rule reachable_in_step)
  have a: "outstanding s \<le> 1" and b: "outstanding s = 1 \<longleftrightarrow> status (app s) = PROCESSING"
    using inv by (auto simp: in_step_def split: if_splits)
  have c: "status (app s) = PROCESSING \<longrightarrow> submit_disabled (app s) (inputCard s)"
    by (simp add: submit_disabled_def isLoading_def)
  have d: "\<forall>s'. step s s' \<and> outstanding s < outstanding s' \<longrightarrow>
               status (app s) \<noteq> PROCESSING \<and> outstanding s = 0 \<and> outstanding s' = 1"
  proof (intro allI impI)
    fix s' assume "step s s' \<and> outstanding s < outstanding s'"
    then have "\<not> submit_disabled (app s) (inputCard s)" and n: "outstanding s' = Suc (outstanding s)"
      using step_starts_request by blast+
    then have "status (app s) \<noteq> PROCESSING" by (simp add: submit_disabled_def isLoading_def)
    with inv n show "status (app s) \<noteq> PROCESSING \<and> outstanding s = 0 \<and> outstanding s' = 1"
      by (simp add: in_step_def)
  qed
  from a b c d show ?thesis by blast
qed

lemma reachable_typing: "reachable typing"
proof -
  have "step (initial False)
          ((initial False)\<lparr>app := (app (initial False))
              \<lparr>inputState := (inputState (app (initial False)))\<lparr>text := ''Rent is due.''\<rparr>\<rparr>\<rparr>)"
    by (rule step.edit_text)
  moreover have "(initial False)\<lparr>app := (app (initial False))
              \<lparr>inputState := (inputState (app (initial False)))\<lparr>text := ''Rent is due.''\<rparr>\<rparr>\<rparr> = typing"
    by (simp add: typing_def typed_def initial_def)
  ultimately have "step (initial False) typing" by simp
  with reachable.start show ?thesis by (rule reachable.next_step)
qed

lemma typing_enabled: "\<not> submit_disabled (app typing) (inputCard typing)"
  by (simp add: submit_disabled_def hasContent_def isLoading_def isUploading_def typing_def
        typed_def initial_def trim_def is_js_space_def)

lemma reachable_waiting: "reachable waiting"
proof -
  have "step typing (typing\<lparr>app := handleSubmit_begin (app typing), outstanding := Suc (outstanding typing)\<rparr>)"
    using typing_enabled by (rule step.submit)
  moreover have "typing\<lparr>app := handleSubmit_begin (app typing), outstanding := Suc (outstanding typing)\<rparr> = waiting"
    by (simp add: waiting_def typing_def initial_def)
  ultimately have "step typing waiting" by simp
  with reachable_typing show ?thesis by (rule reachable.next_step)
qed

theorem one_outstanding_request_witness:
  "reachable waiting \<and> outstanding waiting = 1 \<and> status (app waiting) = PROCESSING
   \<and> submit_disabled (app waiting) (inputCard waiting)"
  using one_outstanding_request [OF reachable_waiting] reachable_waiting
  by (simp add: waiting_def handleSubmit_begin_def)

end
